theory Spec2Isabelle
  imports Main "HOL-Library.Word"
begin

section \<open>Python values used by mqtt-log-client.py\<close>

text \<open>
  A Python \<^verbatim>\<open>str\<close> is a sequence of Unicode code points and a \<^verbatim>\<open>bytes\<close> object a
  sequence of octets. String literals of the source are ASCII apart from the check mark
  U+2713 and the ballot cross U+2717.
\<close>

type_synonym pystr = "nat list"
type_synonym byte = "8 word"

definition asc :: "string \<Rightarrow> pystr" where
  "asc cs = map (of_char :: char \<Rightarrow> nat) cs"

definition LF :: nat where
  "LF = 10"

definition check_mark :: nat where
  "check_mark = 0x2713"

definition ballot_x :: nat where
  "ballot_x = 0x2717"

subsection \<open>Formatting of integers and booleans inside an f-string\<close>

fun str_nat :: "nat \<Rightarrow> pystr" where
  "str_nat n = (if n < 10 then [48 + n] else str_nat (n div 10) @ [48 + n mod 10])"

declare str_nat.simps [simp del]

definition str_int :: "int \<Rightarrow> pystr" where
  "str_int i = (if i < 0 then 45 # str_nat (nat (- i)) else str_nat (nat i))"

definition str_bool :: "bool \<Rightarrow> pystr" where
  "str_bool b = (if b then asc ''True'' else asc ''False'')"

subsection \<open>Exceptions\<close>

text \<open>
  Exceptions that travel through the program: the interrupt, and any other exception
  together with its message \<^verbatim>\<open>str(e)\<close>. Only the first is not an \<^verbatim>\<open>Exception\<close> for an
  \<^verbatim>\<open>except\<close> clause.
\<close>

datatype exn = KeyboardInterrupt | Exception pystr

subsection \<open>\<^verbatim>\<open>bytes.decode('utf-8')\<close>\<close>

text \<open>
  The strict decoder of the standard library accepts exactly the well-formed byte
  sequences of the Unicode standard: no overlong form, no surrogate, nothing above
  U+10FFFF, no truncated sequence. \<open>None\<close> stands for \<^verbatim>\<open>UnicodeDecodeError\<close>.
\<close>

definition cont :: "nat \<Rightarrow> bool" where
  "cont b = (0x80 \<le> b \<and> b \<le> 0xBF)"

definition second_ok :: "nat \<Rightarrow> nat \<Rightarrow> bool" where
  "second_ok b0 b1 =
     (if b0 = 0xE0 then 0xA0 \<le> b1 \<and> b1 \<le> 0xBF
      else if b0 = 0xED then 0x80 \<le> b1 \<and> b1 \<le> 0x9F
      else if b0 = 0xF0 then 0x90 \<le> b1 \<and> b1 \<le> 0xBF
      else if b0 = 0xF4 then 0x80 \<le> b1 \<and> b1 \<le> 0x8F
      else cont b1)"

fun decode_octets :: "nat list \<Rightarrow> pystr option" where
  "decode_octets [] = Some []"
| "decode_octets (b0 # bs) =
     (if b0 < 0x80 then map_option ((#) b0) (decode_octets bs)
      else if 0xC2 \<le> b0 \<and> b0 \<le> 0xDF then
        (case bs of
           b1 # r \<Rightarrow>
             if cont b1
             then map_option ((#) ((b0 - 0xC0) * 64 + (b1 - 0x80))) (decode_octets r)
             else None
         | _ \<Rightarrow> None)
      else if 0xE0 \<le> b0 \<and> b0 \<le> 0xEF then
        (case bs of
           b1 # b2 # r \<Rightarrow>
             if second_ok b0 b1 \<and> cont b2
             then map_option
                    ((#) ((b0 - 0xE0) * 4096 + (b1 - 0x80) * 64 + (b2 - 0x80)))
                    (decode_octets r)
             else None
         | _ \<Rightarrow> None)
      else if 0xF0 \<le> b0 \<and> b0 \<le> 0xF4 then
        (case bs of
           b1 # b2 # b3 # r \<Rightarrow>
             if second_ok b0 b1 \<and> cont b2 \<and> cont b3
             then map_option
                    ((#) ((b0 - 0xF0) * 262144 + (b1 - 0x80) * 4096
                          + (b2 - 0x80) * 64 + (b3 - 0x80)))
                    (decode_octets r)
             else None
         | _ \<Rightarrow> None)
      else None)"

definition utf8_decode :: "byte list \<Rightarrow> pystr option" where
  "utf8_decode bs = decode_octets (map unat bs)"

text \<open>
  When decoding fails, the decoder raises \<^verbatim>\<open>UnicodeDecodeError\<close> for the first ill-formed
  sequence: a lead octet that cannot start a sequence, a sequence cut off by the end of
  the data, or a sequence with a wrong continuation octet. The error carries the
  positions where the offending octets start and end, and a reason.
\<close>

datatype fault = Fault nat nat string

fun first_fault :: "nat \<Rightarrow> nat list \<Rightarrow> fault option" where
  "first_fault pos [] = None"
| "first_fault pos (b0 # bs) =
     (if b0 < 0x80 then first_fault (pos + 1) bs
      else if b0 < 0xC2 then Some (Fault pos (pos + 1) ''invalid start byte'')
      else if b0 < 0xE0 then
        (case bs of
           [] \<Rightarrow> Some (Fault pos (pos + 1) ''unexpected end of data'')
         | b1 # r \<Rightarrow>
             if \<not> cont b1 then Some (Fault pos (pos + 1) ''invalid continuation byte'')
             else first_fault (pos + 2) r)
      else if b0 < 0xF0 then
        (case bs of
           [] \<Rightarrow> Some (Fault pos (pos + 1) ''unexpected end of data'')
         | [b1] \<Rightarrow>
             if \<not> second_ok b0 b1 then Some (Fault pos (pos + 1) ''invalid continuation byte'')
             else Some (Fault pos (pos + 2) ''unexpected end of data'')
         | b1 # b2 # r \<Rightarrow>
             if \<not> second_ok b0 b1 then Some (Fault pos (pos + 1) ''invalid continuation byte'')
             else if \<not> cont b2 then Some (Fault pos (pos + 2) ''invalid continuation byte'')
             else first_fault (pos + 3) r)
      else if b0 < 0xF5 then
        (case bs of
           [] \<Rightarrow> Some (Fault pos (pos + 1) ''unexpected end of data'')
         | [b1] \<Rightarrow>
             if \<not> second_ok b0 b1 then Some (Fault pos (pos + 1) ''invalid continuation byte'')
             else Some (Fault pos (pos + 2) ''unexpected end of data'')
         | [b1, b2] \<Rightarrow>
             if \<not> second_ok b0 b1 then Some (Fault pos (pos + 1) ''invalid continuation byte'')
             else if \<not> cont b2 then Some (Fault pos (pos + 2) ''invalid continuation byte'')
             else Some (Fault pos (pos + 3) ''unexpected end of data'')
         | b1 # b2 # b3 # r \<Rightarrow>
             if \<not> second_ok b0 b1 then Some (Fault pos (pos + 1) ''invalid continuation byte'')
             else if \<not> cont b2 then Some (Fault pos (pos + 2) ''invalid continuation byte'')
             else if \<not> cont b3 then Some (Fault pos (pos + 3) ''invalid continuation byte'')
             else first_fault (pos + 4) r)
      else Some (Fault pos (pos + 1) ''invalid start byte''))"

definition hex_digit :: "nat \<Rightarrow> nat" where
  "hex_digit d = (if d < 10 then 48 + d else 87 + d)"

text \<open>The message of the error, as \<^verbatim>\<open>str(e)\<close> gives it.\<close>

fun fault_text :: "nat list \<Rightarrow> fault \<Rightarrow> pystr" where
  "fault_text cs (Fault s e reason) =
     [39] @ asc ''utf-8'' @ [39] @ asc '' codec can'' @ [39] @ asc ''t decode ''
     @ (if e = s + 1
        then asc ''byte 0x'' @ [hex_digit (cs ! s div 16), hex_digit (cs ! s mod 16)]
             @ asc '' in position '' @ str_nat s
        else asc ''bytes in position '' @ str_nat s @ asc ''-'' @ str_nat (e - 1))
     @ asc '': '' @ asc reason"

definition unicode_decode_error :: "byte list \<Rightarrow> exn" where
  "unicode_decode_error bs =
     Exception (case first_fault 0 (map unat bs) of
                  Some f \<Rightarrow> fault_text (map unat bs) f
                | None \<Rightarrow> [])"

text \<open>\<^verbatim>\<open>bs.decode('utf-8')\<close>: the string, or the error raised.\<close>

definition py_decode :: "byte list \<Rightarrow> exn + pystr" where
  "py_decode bs =
     (case utf8_decode bs of
        Some s \<Rightarrow> Inr s
      | None \<Rightarrow> Inl (unicode_decode_error bs))"

subsection \<open>\<^verbatim>\<open>str(bytes)\<close>: the bytes literal\<close>

text \<open>
  Formatting a \<^verbatim>\<open>bytes\<close> object inside an f-string yields its \<^verbatim>\<open>repr\<close>: the letter b, a
  quote, the octets with the non-printable ones escaped, and the quote again. The double
  quote is chosen when the data holds a single quote and no double quote.
\<close>

definition repr_octet :: "nat \<Rightarrow> nat \<Rightarrow> pystr" where
  "repr_octet quote c =
     (if c = quote \<or> c = 92 then [92, c]
      else if c = 9 then [92, 116]
      else if c = 10 then [92, 110]
      else if c = 13 then [92, 114]
      else if c < 32 \<or> 127 \<le> c then [92, 120, hex_digit (c div 16), hex_digit (c mod 16)]
      else [c])"

definition repr_quote :: "nat list \<Rightarrow> nat" where
  "repr_quote cs = (if 39 \<in> set cs \<and> 34 \<notin> set cs then 34 else 39)"

definition bytes_repr :: "byte list \<Rightarrow> pystr" where
  "bytes_repr bs =
     (let cs = map unat bs; quote = repr_quote cs
      in [98, quote] @ concat (map (repr_octet quote) cs) @ [quote])"

subsection \<open>\<^verbatim>\<open>datetime.now().strftime("%Y-%m-%d %H:%M:%S")\<close>\<close>

text \<open>
  A reading of the clock, to the second. Each directive of the format is a decimal number
  padded with zeros: \<^verbatim>\<open>%Y\<close> to four digits (every platform prints a year from 1000 on
  that way), the others to two.
\<close>

record datetime =
  year :: nat
  month :: nat
  day :: nat
  hour :: nat
  minute :: nat
  second :: nat

definition zfill :: "nat \<Rightarrow> pystr \<Rightarrow> pystr" where
  "zfill w s = replicate (w - length s) 48 @ s"

definition strftime :: "datetime \<Rightarrow> pystr" where
  "strftime t =
     zfill 4 (str_nat (year t)) @ asc ''-'' @ zfill 2 (str_nat (month t)) @ asc ''-''
     @ zfill 2 (str_nat (day t)) @ asc '' '' @ zfill 2 (str_nat (hour t)) @ asc '':''
     @ zfill 2 (str_nat (minute t)) @ asc '':'' @ zfill 2 (str_nat (second t))"

section \<open>Messages, the log file and the world of the process\<close>

text \<open>
  The client library hands every message to the callback as an object with the
  attributes \<^verbatim>\<open>topic\<close>, \<^verbatim>\<open>qos\<close>, \<^verbatim>\<open>retain\<close> and \<^verbatim>\<open>payload\<close>. The object holds the topic
  as the octets received; reading \<^verbatim>\<open>msg.topic\<close> decodes them as UTF-8 and raises when
  they are not UTF-8. The library delivers the payload as \<^verbatim>\<open>bytes\<close>; \<^verbatim>\<open>on_message\<close> also
  has a branch for a payload that is not \<^verbatim>\<open>bytes\<close>, represented here by a \<^verbatim>\<open>str\<close>.
\<close>

datatype py_payload = Bytes "byte list" | Str pystr

record mqtt_msg =
  raw_topic :: "byte list"
  qos :: int
  retain :: bool
  payload :: py_payload

definition topic :: "mqtt_msg \<Rightarrow> exn + pystr" where
  "topic msg = py_decode (raw_topic msg)"

text \<open>
  The return code of a connection attempt: an \<^verbatim>\<open>int\<close>, or, under version 2 of the
  callback interface (the one \<^verbatim>\<open>main\<close> selects), a reason-code object that compares by
  its numeric value and is formatted as its name.
\<close>

datatype reason_code = IntCode int | ReasonCode nat pystr

fun rc_is_zero :: "reason_code \<Rightarrow> bool" where
  "rc_is_zero (IntCode i) = (i = 0)"
| "rc_is_zero (ReasonCode v n) = (v = 0)"

fun rc_str :: "reason_code \<Rightarrow> pystr" where
  "rc_str (IntCode i) = str_int i"
| "rc_str (ReasonCode v n) = n"

datatype file_mode = Append | Truncate

text \<open>
  Every call the program makes on the log file, on the client library and on the package
  installer is recorded, in order, so that statements about how often and in which order
  something is called can be read off the history.
\<close>

datatype call =
    Open pystr file_mode
  | Write pystr
  | Flush
  | Close
  | PipInstall
  | Client
  | Connect pystr int int
  | Subscribe pystr
  | LoopForever
  | Disconnect

record py_file =
  buffer :: pystr
  closed :: bool

text \<open>
  The world: the text sent to standard output so far, the content of the file at the
  path given by \<^verbatim>\<open>-log\<close> (a missing file counts as empty), the file object bound to
  \<^verbatim>\<open>log_file\<close> once it exists, and the history of calls.
\<close>

record world =
  console :: pystr
  disk :: pystr
  log_file :: "py_file option"
  calls :: "call list"

definition print :: "pystr \<Rightarrow> world \<Rightarrow> world" where
  "print s w = w\<lparr>console := console w @ s @ [LF]\<rparr>"

definition called :: "call \<Rightarrow> world \<Rightarrow> world" where
  "called c w = w\<lparr>calls := calls w @ [c]\<rparr>"

subsection \<open>The file object\<close>

text \<open>
  \<^verbatim>\<open>open(path, 'a')\<close> keeps what the file holds and puts every write at its end;
  \<^verbatim>\<open>'w'\<close> would empty it. When the path cannot be opened the call raises and leaves the
  file as it was. Written text stays in the buffer of the object until a flush pushes it
  to the file. Writing to or flushing a closed file raises \<^verbatim>\<open>ValueError\<close>; closing
  flushes first, and closing a closed file does nothing. A close that raises leaves the
  object closed all the same. The argument \<open>raises\<close> of \<open>py_open\<close> and \<open>file_close\<close> says
  whether the surroundings make the call fail.
\<close>

definition py_open :: "pystr \<Rightarrow> file_mode \<Rightarrow> exn option \<Rightarrow> world \<Rightarrow> exn option \<times> world" where
  "py_open path m raises w =
     (let w = called (Open path m) w
      in case raises of
           Some x \<Rightarrow> (Some x, w)
         | None \<Rightarrow>
             (None, w\<lparr>disk := (case m of Append \<Rightarrow> disk w | Truncate \<Rightarrow> []),
                       log_file := Some \<lparr>buffer = [], closed = False\<rparr>\<rparr>))"

definition name_error :: exn where
  "name_error =
     Exception (asc ''cannot access free variable '' @ [39] @ asc ''log_file'' @ [39]
                @ asc '' where it is not associated with a value in enclosing scope'')"

definition closed_error :: exn where
  "closed_error = Exception (asc ''I/O operation on closed file.'')"

definition file_write :: "pystr \<Rightarrow> world \<Rightarrow> exn option \<times> world" where
  "file_write s w =
     (let w = called (Write s) w
      in case log_file w of
           None \<Rightarrow> (Some name_error, w)
         | Some f \<Rightarrow>
             if closed f then (Some closed_error, w)
             else (None, w\<lparr>log_file := Some (f\<lparr>buffer := buffer f @ s\<rparr>)\<rparr>))"

definition file_flush :: "world \<Rightarrow> exn option \<times> world" where
  "file_flush w =
     (let w = called Flush w
      in case log_file w of
           None \<Rightarrow> (Some name_error, w)
         | Some f \<Rightarrow>
             if closed f then (Some closed_error, w)
             else (None, w\<lparr>disk := disk w @ buffer f,
                           log_file := Some (f\<lparr>buffer := []\<rparr>)\<rparr>))"

definition file_close :: "exn option \<Rightarrow> world \<Rightarrow> exn option \<times> world" where
  "file_close raises w =
     (let w = called Close w
      in case log_file w of
           None \<Rightarrow> (Some name_error, w)
         | Some f \<Rightarrow>
             if closed f then (None, w)
             else (case raises of
                     Some x \<Rightarrow> (Some x, w\<lparr>log_file := Some (f\<lparr>closed := True\<rparr>)\<rparr>)
                   | None \<Rightarrow>
                       (None, w\<lparr>disk := disk w @ buffer f,
                                 log_file := Some \<lparr>buffer = [], closed = True\<rparr>\<rparr>)))"

section \<open>The callbacks\<close>

subsection \<open>\<^verbatim>\<open>on_connect\<close>\<close>

definition on_connect :: "reason_code \<Rightarrow> world \<Rightarrow> world" where
  "on_connect rc w =
     (if rc_is_zero rc then
        (let w = print (check_mark # asc '' Connected to MQTT broker'') w;
             w = called (Subscribe (asc ''#'')) w;
             w = print (check_mark # asc '' Subscribed to all topics (#)'') w
         in print (replicate 60 45) w)
      else print (ballot_x # asc '' Failed to connect, return code: '' @ rc_str rc) w)"

subsection \<open>\<^verbatim>\<open>on_message\<close>\<close>

text \<open>The text \<^verbatim>\<open>on_message\<close> binds to its local \<^verbatim>\<open>payload\<close> (lines 41 to 47).\<close>

definition shown_payload :: "py_payload \<Rightarrow> pystr" where
  "shown_payload p =
     (case p of
        Bytes bs \<Rightarrow>
          (case utf8_decode bs of
             Some s \<Rightarrow> s
           | None \<Rightarrow> asc ''[Binary data: '' @ str_nat (length bs) @ asc '' bytes]'')
      | Str s \<Rightarrow> s)"

text \<open>
  The timestamp line is printed first; the topic is read for the second line, and when
  reading it raises, the function is left there, with the first line printed.
\<close>

definition on_message :: "datetime \<Rightarrow> mqtt_msg \<Rightarrow> world \<Rightarrow> exn option \<times> world" where
  "on_message now msg w =
     (let timestamp = strftime now;
          payload_text = shown_payload (payload msg);
          w = print (asc ''['' @ timestamp @ asc '']'') w
      in case topic msg of
           Inl x \<Rightarrow> (Some x, w)
         | Inr t \<Rightarrow>
             (let w = print (asc ''Topic: '' @ t) w;
                  w = print (asc ''QoS: '' @ str_int (qos msg) @ asc '', Retained: ''
                             @ str_bool (retain msg)) w;
                  w = print (asc ''Payload: '' @ payload_text) w
              in (None, print (replicate 60 45) w)))"

subsection \<open>\<^verbatim>\<open>log_to_file\<close> and \<^verbatim>\<open>on_message_with_log\<close>\<close>

text \<open>What \<^verbatim>\<open>{msg.payload}\<close> becomes inside the f-string of \<^verbatim>\<open>log_to_file\<close>.\<close>

definition format_payload :: "py_payload \<Rightarrow> pystr" where
  "format_payload p = (case p of Bytes bs \<Rightarrow> bytes_repr bs | Str s \<Rightarrow> s)"

text \<open>The f-string of line 75, for the value \<open>t\<close> that reading \<^verbatim>\<open>msg.topic\<close> gave.\<close>

definition log_entry :: "datetime \<Rightarrow> pystr \<Rightarrow> mqtt_msg \<Rightarrow> pystr" where
  "log_entry now t msg =
     asc ''['' @ strftime now @ asc ''] Topic: '' @ t
     @ asc '', QoS: '' @ str_int (qos msg)
     @ asc '', Retained: '' @ str_bool (retain msg)
     @ asc '', Payload: '' @ format_payload (payload msg) @ [LF]"

definition log_to_file :: "datetime \<Rightarrow> mqtt_msg \<Rightarrow> world \<Rightarrow> exn option \<times> world" where
  "log_to_file now msg w =
     (case topic msg of
        Inl x \<Rightarrow> (Some x, w)
      | Inr t \<Rightarrow>
          (case file_write (log_entry now t msg) w of
             (Some e, w') \<Rightarrow> (Some e, w')
           | (None, w') \<Rightarrow> file_flush w'))"

text \<open>
  Each of the two functions reads the clock itself, so the callback takes two readings:
  the one of \<^verbatim>\<open>on_message\<close> and the later one of \<^verbatim>\<open>log_to_file\<close>. An exception out of
  \<^verbatim>\<open>on_message\<close> leaves the callback before \<^verbatim>\<open>log_to_file\<close> is called.
\<close>

definition on_message_with_log ::
    "datetime \<Rightarrow> datetime \<Rightarrow> mqtt_msg \<Rightarrow> world \<Rightarrow> exn option \<times> world" where
  "on_message_with_log now1 now2 msg w =
     (case on_message now1 msg w of
        (Some x, w') \<Rightarrow> (Some x, w')
      | (None, w') \<Rightarrow> log_to_file now2 msg w')"

section \<open>The program\<close>

text \<open>
  What the surroundings decide during one run: whether the client module can be imported
  and what installing it does, whether the import of line 67, the \<^verbatim>\<open>open\<close> of the given
  path, the creation of the client, the connect, the disconnect and the close raise,
  which events the network loop delivers to the callbacks, and how the loop ends. An
  exception from outside (the interrupt, a network or file error) arises in one of these
  calls or in the loop between two callbacks; a run is followed up to the point where
  \<^verbatim>\<open>main\<close> is left.
\<close>

datatype import_outcome = Importable | ImportRaises exn | PipSucceeds | PipFails | PipRaises exn

datatype event = ConnAck reason_code | Publish datetime datetime mqtt_msg

datatype ending = Returns | Raises exn

record env =
  module :: import_outcome
  import_raises :: "exn option"
  open_raises :: "pystr \<Rightarrow> exn option"
  client_raises :: "exn option"
  connect_raises :: "exn option"
  events :: "event list"
  ending :: ending
  disconnect_raises :: "exn option"
  close_raises :: "exn option"

record args =
  broker :: pystr
  log :: pystr
  port :: int

text \<open>
  How the process ends: with an exit code (0 when \<^verbatim>\<open>main\<close> returns, \<open>n\<close> after
  \<^verbatim>\<open>sys.exit(n)\<close>), or with the traceback of an exception that nothing caught, which is
  not a clean exit with code 0.
\<close>

datatype process_end = ExitCode int | Traceback exn

text \<open>
  \<open>ImportRaises x\<close> stands for an exception other than \<^verbatim>\<open>ImportError\<close> out of
  \<^verbatim>\<open>importlib.import_module\<close>, \<open>PipFails\<close> for a \<^verbatim>\<open>CalledProcessError\<close> out of
  \<^verbatim>\<open>subprocess.check_call\<close>, which the function catches, and \<open>PipRaises x\<close> for any other
  exception out of that call (the interrupt, for one), which it does not. The result
  \<open>None\<close> of \<open>install_paho_mqtt\<close> says that the function returns.
\<close>

definition install_paho_mqtt ::
    "import_outcome \<Rightarrow> world \<Rightarrow> process_end option \<times> world" where
  "install_paho_mqtt m w =
     (case m of
        Importable \<Rightarrow> (None, print (check_mark # asc '' paho-mqtt is already installed'') w)
      | ImportRaises x \<Rightarrow> (Some (Traceback x), w)
      | PipSucceeds \<Rightarrow>
          (let w = print (asc ''Installing paho-mqtt...'') w;
               w = called PipInstall w
           in (None, print (check_mark # asc '' Successfully installed paho-mqtt'') w))
      | PipFails \<Rightarrow>
          (let w = print (asc ''Installing paho-mqtt...'') w;
               w = called PipInstall w
           in (Some (ExitCode 1), print (ballot_x # asc '' Failed to install paho-mqtt'') w))
      | PipRaises x \<Rightarrow>
          (let w = print (asc ''Installing paho-mqtt...'') w;
               w = called PipInstall w
           in (Some (Traceback x), w)))"

fun dispatch :: "event \<Rightarrow> world \<Rightarrow> exn option \<times> world" where
  "dispatch (ConnAck rc) w = (None, on_connect rc w)"
| "dispatch (Publish now1 now2 msg) w = on_message_with_log now1 now2 msg w"

text \<open>
  The network loop runs the callback of each event in turn. An exception raised by a
  callback leaves the loop at once; otherwise the loop ends as the surroundings say.
\<close>

fun deliver :: "event list \<Rightarrow> ending \<Rightarrow> world \<Rightarrow> exn option \<times> world" where
  "deliver [] Returns w = (None, w)"
| "deliver [] (Raises e) w = (Some e, w)"
| "deliver (ev # evs) fin w =
     (case dispatch ev w of
        (Some e, w') \<Rightarrow> (Some e, w')
      | (None, w') \<Rightarrow> deliver evs fin w')"

definition loop_forever :: "event list \<Rightarrow> ending \<Rightarrow> world \<Rightarrow> exn option \<times> world" where
  "loop_forever evs fin w = deliver evs fin (called LoopForever w)"

definition client_connect ::
    "pystr \<Rightarrow> int \<Rightarrow> int \<Rightarrow> exn option \<Rightarrow> world \<Rightarrow> exn option \<times> world" where
  "client_connect host p keepalive raises w = (raises, called (Connect host p keepalive) w)"

definition client_disconnect :: "exn option \<Rightarrow> world \<Rightarrow> exn option \<times> world" where
  "client_disconnect raises w = (raises, called Disconnect w)"

text \<open>The body of the \<^verbatim>\<open>try\<close> statement of \<^verbatim>\<open>main\<close> (lines 92 to 99).\<close>

definition try_body :: "args \<Rightarrow> env \<Rightarrow> world \<Rightarrow> exn option \<times> world" where
  "try_body a e w =
     (let w = print (asc ''Connecting to MQTT broker at '' @ broker a @ asc '':''
                     @ str_int (port a) @ asc ''...'') w
      in case client_connect (broker a) (port a) 60 (connect_raises e) w of
           (Some x, w) \<Rightarrow> (Some x, w)
         | (None, w) \<Rightarrow>
             (let w = print (asc ''Listening for MQTT messages...'') w;
                  w = print (asc ''Press Ctrl+C to stop'' @ [LF]) w
              in loop_forever (events e) (ending e) w))"

text \<open>The two handlers of the \<^verbatim>\<open>try\<close> statement (lines 101 to 109).\<close>

definition on_interrupt :: "env \<Rightarrow> world \<Rightarrow> process_end \<times> world" where
  "on_interrupt e w =
     (let w = print (LF # asc ''Disconnecting...'') w
      in case client_disconnect (disconnect_raises e) w of
           (Some x, w) \<Rightarrow> (Traceback x, w)
         | (None, w) \<Rightarrow>
             (case file_close (close_raises e) w of
                (Some x, w) \<Rightarrow> (Traceback x, w)
              | (None, w) \<Rightarrow> (ExitCode 0, print (asc ''Stopped'') w)))"

definition on_exception :: "pystr \<Rightarrow> env \<Rightarrow> world \<Rightarrow> process_end \<times> world" where
  "on_exception m e w =
     (let w = print (asc ''Error: '' @ m) w
      in case file_close (close_raises e) w of
           (Some x, w) \<Rightarrow> (Traceback x, w)
         | (None, w) \<Rightarrow> (ExitCode 1, w))"

text \<open>
  \<open>main a e prior\<close> runs the program with arguments \<open>a\<close> in surroundings \<open>e\<close>, the log
  file holding \<open>prior\<close> beforehand, and gives the way the process ends and the final
  world. An exception raised before the \<^verbatim>\<open>try\<close> statement or inside one of its handlers
  is caught by nothing.
\<close>

definition main :: "args \<Rightarrow> env \<Rightarrow> pystr \<Rightarrow> process_end \<times> world" where
  "main a e prior =
     (let w = \<lparr>console = [], disk = prior, log_file = None, calls = []\<rparr>
      in case install_paho_mqtt (module e) w of
           (Some p, w) \<Rightarrow> (p, w)
         | (None, w) \<Rightarrow>
             (case import_raises e of
                Some x \<Rightarrow> (Traceback x, w)
              | None \<Rightarrow>
                  (case py_open (log a) Append (open_raises e (log a)) w of
                     (Some x, w) \<Rightarrow> (Traceback x, w)
                   | (None, w) \<Rightarrow>
                       (let w = called Client w
                        in case client_raises e of
                             Some x \<Rightarrow> (Traceback x, w)
                           | None \<Rightarrow>
                               (case try_body a e w of
                                  (None, w) \<Rightarrow> (ExitCode 0, w)
                                | (Some KeyboardInterrupt, w) \<Rightarrow> on_interrupt e w
                                | (Some (Exception m), w) \<Rightarrow> on_exception m e w)))))"

section \<open>Notions used to state the properties\<close>

text \<open>The shape \<^verbatim>\<open>YYYY-MM-DD HH:MM:SS\<close>: in the format, d stands for a decimal digit.\<close>

definition is_digit :: "nat \<Rightarrow> bool" where
  "is_digit c = (48 \<le> c \<and> c \<le> 57)"

fun matches_fmt :: "string \<Rightarrow> pystr \<Rightarrow> bool" where
  "matches_fmt [] [] = True"
| "matches_fmt (p # ps) (c # cs) =
     ((if p = CHR ''d'' then is_digit c else c = of_char p) \<and> matches_fmt ps cs)"
| "matches_fmt _ _ = False"

definition is_timestamp :: "pystr \<Rightarrow> bool" where
  "is_timestamp s = matches_fmt ''dddd-dd-dd dd:dd:dd'' s"

text \<open>
  The clock readings a running system produces: the field ranges of a \<^verbatim>\<open>datetime\<close>
  object, with a year of four digits.
\<close>

definition clock_reading :: "datetime \<Rightarrow> bool" where
  "clock_reading t =
     (1000 \<le> year t \<and> year t \<le> 9999 \<and> 1 \<le> month t \<and> month t \<le> 12
      \<and> 1 \<le> day t \<and> day t \<le> 31 \<and> hour t < 24 \<and> minute t < 60 \<and> second t < 60)"

text \<open>
  The line of the log file as the specification writes it,
  \<^verbatim>\<open>[<timestamp>] Topic: <topic>, QoS: <q>, Retained: <r>, Payload: <payload>\<close>,
  and the console block of one message: timestamp line, topic line, QoS/retained line,
  payload line and separator.
\<close>

definition log_pattern :: "pystr \<Rightarrow> pystr \<Rightarrow> pystr \<Rightarrow> pystr \<Rightarrow> pystr \<Rightarrow> pystr" where
  "log_pattern ts t q r p =
     asc ''['' @ ts @ asc ''] Topic: '' @ t @ asc '', QoS: '' @ q
     @ asc '', Retained: '' @ r @ asc '', Payload: '' @ p"

definition console_block :: "pystr \<Rightarrow> pystr \<Rightarrow> pystr \<Rightarrow> pystr \<Rightarrow> pystr \<Rightarrow> pystr" where
  "console_block ts t q r p =
     asc ''['' @ ts @ asc '']'' @ [LF]
     @ asc ''Topic: '' @ t @ [LF]
     @ asc ''QoS: '' @ q @ asc '', Retained: '' @ r @ [LF]
     @ asc ''Payload: '' @ p @ [LF]
     @ replicate 60 45 @ [LF]"

definition binary_placeholder :: "nat \<Rightarrow> pystr" where
  "binary_placeholder n = asc ''[Binary data: '' @ str_nat n @ asc '' bytes]''"

text \<open>
  The UTF-8 form of a Unicode scalar value (a code point up to U+10FFFF that is not a
  surrogate), against which the decoder is checked.
\<close>

definition is_scalar :: "nat \<Rightarrow> bool" where
  "is_scalar c = (c < 0x110000 \<and> \<not> (0xD800 \<le> c \<and> c \<le> 0xDFFF))"

definition encode_point :: "nat \<Rightarrow> nat list" where
  "encode_point c =
     (if c < 0x80 then [c]
      else if c < 0x800 then [0xC0 + c div 64, 0x80 + c mod 64]
      else if c < 0x10000 then [0xE0 + c div 4096, 0x80 + c div 64 mod 64, 0x80 + c mod 64]
      else [0xF0 + c div 262144, 0x80 + c div 4096 mod 64, 0x80 + c div 64 mod 64,
            0x80 + c mod 64])"

text \<open>
  Reading a bytes literal back: the octets between the quotes, with the escapes undone.
\<close>

definition hex_value :: "nat \<Rightarrow> nat" where
  "hex_value d = (if d < 58 then d - 48 else d - 87)"

fun unescape :: "nat list \<Rightarrow> nat list" where
  "unescape [] = []"
| "unescape (c # cs) =
     (if c = 92 then
        (case cs of
           [] \<Rightarrow> []
         | e # r \<Rightarrow>
             if e = 116 then 9 # unescape r
             else if e = 110 then 10 # unescape r
             else if e = 114 then 13 # unescape r
             else if e = 120 then
               (case r of
                  h # l # r' \<Rightarrow> (hex_value h * 16 + hex_value l) # unescape r'
                | _ \<Rightarrow> [])
             else e # unescape r)
      else c # unescape cs)"

definition read_literal :: "pystr \<Rightarrow> nat list" where
  "read_literal s = unescape (butlast (drop 2 s))"


text \<open>What a history of calls wrote to the log file, and the modes of its opens.\<close>

fun written :: "call list \<Rightarrow> pystr" where
  "written [] = []"
| "written (Write s # cs) = s @ written cs"
| "written (c # cs) = written cs"

fun open_modes :: "call list \<Rightarrow> file_mode list" where
  "open_modes [] = []"
| "open_modes (Open p m # cs) = m # open_modes cs"
| "open_modes (c # cs) = open_modes cs"

text \<open>The calls made after the first \<open>Close\<close> of a history.\<close>

definition after_close :: "call list \<Rightarrow> call list" where
  "after_close cs = tl (dropWhile (\<lambda>c. c \<noteq> Close) cs)"

text \<open>The log file is open and its buffer is empty.\<close>

definition log_ready :: "world \<Rightarrow> bool" where
  "log_ready w = (log_file w = Some \<lparr>buffer = [], closed = False\<rparr>)"

text \<open>
  What one event contributes when the log file is open: the exception its callback
  raises, if any, the text appended to the file and the calls made. The events of a
  loop whose callbacks return are those before the first one that raises.
\<close>

fun event_fault :: "event \<Rightarrow> exn option" where
  "event_fault (ConnAck rc) = None"
| "event_fault (Publish now1 now2 msg) =
     (case topic msg of Inl x \<Rightarrow> Some x | Inr t \<Rightarrow> None)"

fun event_entry :: "event \<Rightarrow> pystr" where
  "event_entry (ConnAck rc) = []"
| "event_entry (Publish now1 now2 msg) =
     (case topic msg of Inl x \<Rightarrow> [] | Inr t \<Rightarrow> log_entry now2 t msg)"

fun event_calls :: "event \<Rightarrow> call list" where
  "event_calls (ConnAck rc) = (if rc_is_zero rc then [Subscribe (asc ''#'')] else [])"
| "event_calls (Publish now1 now2 msg) =
     (case topic msg of
        Inl x \<Rightarrow> []
      | Inr t \<Rightarrow> [Write (log_entry now2 t msg), Flush])"

definition handled :: "event list \<Rightarrow> event list" where
  "handled evs = takeWhile (\<lambda>ev. event_fault ev = None) evs"

fun loop_outcome :: "event list \<Rightarrow> ending \<Rightarrow> exn option" where
  "loop_outcome [] Returns = None"
| "loop_outcome [] (Raises x) = Some x"
| "loop_outcome (ev # evs) fin =
     (case event_fault ev of Some x \<Rightarrow> Some x | None \<Rightarrow> loop_outcome evs fin)"

text \<open>
  How the \<^verbatim>\<open>try\<close> statement of \<^verbatim>\<open>main\<close> is left (\<open>None\<close>: it runs to its end), the
  events whose callbacks return before that, and the calls made inside it.
\<close>

definition outcome :: "env \<Rightarrow> exn option" where
  "outcome e =
     (case connect_raises e of
        Some x \<Rightarrow> Some x
      | None \<Rightarrow> loop_outcome (events e) (ending e))"

definition delivered :: "env \<Rightarrow> event list" where
  "delivered e = (if connect_raises e = None then handled (events e) else [])"

definition try_calls :: "args \<Rightarrow> env \<Rightarrow> call list" where
  "try_calls a e =
     Connect (broker a) (port a) 60
     # (if connect_raises e = None
        then LoopForever # concat (map event_calls (handled (events e))) else [])"

text \<open>
  The runs that get as far as the \<^verbatim>\<open>open\<close> of line 70, and those that get as far as the
  \<^verbatim>\<open>try\<close> statement; the calls made before the \<^verbatim>\<open>try\<close> statement in the latter.
\<close>

definition installed :: "import_outcome \<Rightarrow> bool" where
  "installed m = (m = Importable \<or> m = PipSucceeds)"

definition reaches_open :: "env \<Rightarrow> bool" where
  "reaches_open e = (installed (module e) \<and> import_raises e = None)"

definition reaches_try :: "args \<Rightarrow> env \<Rightarrow> bool" where
  "reaches_try a e =
     (reaches_open e \<and> open_raises e (log a) = None \<and> client_raises e = None)"

definition install_calls :: "import_outcome \<Rightarrow> call list" where
  "install_calls m =
     (case m of Importable \<Rightarrow> [] | ImportRaises x \<Rightarrow> [] | _ \<Rightarrow> [PipInstall])"

definition setup_calls :: "args \<Rightarrow> env \<Rightarrow> call list" where
  "setup_calls a e = install_calls (module e) @ [Open (log a) Append, Client]"

text \<open>
  The calls the handler of the \<^verbatim>\<open>try\<close> statement makes, and all calls of a run.
\<close>

definition handler_calls :: "env \<Rightarrow> call list" where
  "handler_calls e =
     (case outcome e of
        None \<Rightarrow> []
      | Some KeyboardInterrupt \<Rightarrow>
          Disconnect # (if disconnect_raises e = None then [Close] else [])
      | Some (Exception m) \<Rightarrow> [Close])"

definition run_calls :: "args \<Rightarrow> env \<Rightarrow> call list" where
  "run_calls a e =
     (if \<not> reaches_open e then install_calls (module e)
      else if open_raises e (log a) \<noteq> None
        then install_calls (module e) @ [Open (log a) Append]
      else if client_raises e \<noteq> None then setup_calls a e
      else setup_calls a e @ try_calls a e @ handler_calls e)"

section \<open>Concrete inputs\<close>

text \<open>
  A clock reading, a world in which the log file has just been opened over the prior
  content \<^verbatim>\<open>old\<close>, and four messages with the topic \<^verbatim>\<open>a/b\<close> or a variation of it: one
  with the payload \<^verbatim>\<open>hi\<close>, one whose payload is the single octet FF, one whose topic
  holds a line feed, and one whose topic is the single octet FF.
\<close>

definition example_now :: datetime where
  "example_now = \<lparr>year = 2024, month = 3, day = 9, hour = 7, minute = 5, second = 0\<rparr>"

definition example_args :: args where
  "example_args = \<lparr>broker = asc ''localhost'', log = asc ''mqtt.log'', port = 1883\<rparr>"

definition ready_world :: world where
  "ready_world =
     \<lparr>console = [], disk = asc ''old'',
      log_file = Some \<lparr>buffer = [], closed = False\<rparr>,
      calls = [Open (asc ''mqtt.log'') Append]\<rparr>"

definition msg_hi :: mqtt_msg where
  "msg_hi =
     \<lparr>raw_topic = [0x61, 0x2F, 0x62], qos = 1, retain = False, payload = Bytes [0x68, 0x69]\<rparr>"

definition msg_ff :: mqtt_msg where
  "msg_ff =
     \<lparr>raw_topic = [0x61, 0x2F, 0x62], qos = 0, retain = True, payload = Bytes [0xFF]\<rparr>"


definition msg_bad_topic :: mqtt_msg where
  "msg_bad_topic = \<lparr>raw_topic = [0xFF], qos = 0, retain = False, payload = Bytes [0x68, 0x69]\<rparr>"

definition example_events :: "event list" where
  "example_events =
     [ConnAck (ReasonCode 0 (asc ''Success'')),
      Publish example_now example_now msg_hi,
      Publish example_now example_now msg_ff]"

text \<open>
  Surroundings in which nothing fails and the loop returns after the example events,
  and variations of them: a run stopped by the interrupt inside the network loop, one
  in which the loop raises another exception, one in which installing the client
  library fails, one in which the interrupt arrives while the installer runs, one in
  which the first message delivered has a topic that is not UTF-8, and one in which the
  log file cannot be opened because its directory does not exist.
\<close>

definition calm :: env where
  "calm =
     \<lparr>module = Importable, import_raises = None, open_raises = (\<lambda>p. None),
      client_raises = None, connect_raises = None, events = example_events,
      ending = Returns, disconnect_raises = None, close_raises = None\<rparr>"

definition env_interrupt :: env where
  "env_interrupt = calm\<lparr>ending := Raises KeyboardInterrupt\<rparr>"

definition env_error :: env where
  "env_error =
     calm\<lparr>module := PipSucceeds, ending := Raises (Exception (asc ''Connection lost''))\<rparr>"

definition env_pip_fails :: env where
  "env_pip_fails = calm\<lparr>module := PipFails, ending := Raises KeyboardInterrupt\<rparr>"

definition env_pip_interrupted :: env where
  "env_pip_interrupted = calm\<lparr>module := PipRaises KeyboardInterrupt\<rparr>"

definition env_bad_topic :: env where
  "env_bad_topic =
     calm\<lparr>events := [Publish example_now example_now msg_bad_topic,
                       Publish example_now example_now msg_hi]\<rparr>"

definition missing_dir_log :: pystr where
  "missing_dir_log = asc ''/nonexistent-dir/x.log''"

definition no_such_file :: "pystr \<Rightarrow> exn" where
  "no_such_file p =
     Exception (asc ''[Errno 2] No such file or directory: '' @ [39] @ p @ [39])"

definition env_open_fails :: env where
  "env_open_fails =
     calm\<lparr>open_raises := (\<lambda>p. if p = missing_dir_log then Some (no_such_file p) else None)\<rparr>"

definition args_missing_dir :: args where
  "args_missing_dir = example_args\<lparr>log := missing_dir_log\<rparr>"

section \<open>Basic facts about the model\<close>

subsection \<open>Decimal digits and the timestamp\<close>


lemma str_nat_1: "n < 10 \<Longrightarrow> str_nat n = [48 + n]"
  by (simp add: str_nat.simps [of n])

lemma str_nat_2: "10 \<le> n \<Longrightarrow> n < 100 \<Longrightarrow> str_nat n = [48 + n div 10, 48 + n mod 10]"
  by (simp add: str_nat.simps [of n] str_nat_1)

lemma str_nat_3:
  "100 \<le> n \<Longrightarrow> n < 1000 \<Longrightarrow>
     str_nat n = [48 + n div 100, 48 + n div 10 mod 10, 48 + n mod 10]"
  by (simp add: str_nat.simps [of n] str_nat_2 div_mult2_eq [symmetric])

lemma str_nat_4:
  "1000 \<le> n \<Longrightarrow> n < 10000 \<Longrightarrow>
     str_nat n = [48 + n div 1000, 48 + n div 100 mod 10, 48 + n div 10 mod 10, 48 + n mod 10]"
  by (simp add: str_nat.simps [of n] str_nat_3 div_mult2_eq [symmetric])

lemma zfill2: "n < 100 \<Longrightarrow> zfill 2 (str_nat n) = [48 + n div 10, 48 + n mod 10]"
  by (cases "n < 10") (simp_all add: zfill_def str_nat_1 str_nat_2)

lemma zfill4:
  "1000 \<le> n \<Longrightarrow> n < 10000 \<Longrightarrow>
     zfill 4 (str_nat n) =
       [48 + n div 1000, 48 + n div 100 mod 10, 48 + n div 10 mod 10, 48 + n mod 10]"
  by (simp add: zfill_def str_nat_4)

lemma digit_mod: "is_digit (48 + n mod 10)"
proof -
  have "n mod 10 < 10" by simp
  then show ?thesis unfolding is_digit_def by linarith
qed

lemma digit_div: "n < 10 * k \<Longrightarrow> is_digit (48 + n div k)"
proof -
  assume "n < 10 * k"
  then have "n div k < 10" by (rule less_mult_imp_div_less)
  then show ?thesis unfolding is_digit_def by linarith
qed

lemma strftime_shape:
  assumes "clock_reading t"
  shows "is_timestamp (strftime t)"
proof -
  from assms have y: "1000 \<le> year t" "year t < 10000"
    and r: "month t < 100" "day t < 100" "hour t < 100" "minute t < 100" "second t < 100"
    by (simp_all add: clock_reading_def)
  have d: "is_digit (48 + year t div 1000)" "is_digit (48 + month t div 10)"
    "is_digit (48 + day t div 10)" "is_digit (48 + hour t div 10)"
    "is_digit (48 + minute t div 10)" "is_digit (48 + second t div 10)"
    using y r by (simp_all add: digit_div)
  show ?thesis
    unfolding is_timestamp_def strftime_def
    by (simp add: zfill2 [OF r(1)] zfill2 [OF r(2)] zfill2 [OF r(3)] zfill2 [OF r(4)]
        zfill2 [OF r(5)] zfill4 [OF y] asc_def digit_mod d)
qed

subsection \<open>Printing, recording a call, and the file object\<close>

lemma print_fields [simp]:
  "console (print s w) = console w @ s @ [LF]"
  "disk (print s w) = disk w"
  "log_file (print s w) = log_file w"
  "calls (print s w) = calls w"
  by (simp_all add: print_def)

lemma called_fields [simp]:
  "console (called c w) = console w"
  "disk (called c w) = disk w"
  "log_file (called c w) = log_file w"
  "calls (called c w) = calls w @ [c]"
  by (simp_all add: called_def)

subsection \<open>Decoding and the bytes literal\<close>

lemma decode_octets_length: "decode_octets bs = Some s \<Longrightarrow> length s \<le> length bs"
proof (induction bs arbitrary: s rule: decode_octets.induct)
  case 1
  then show ?case by simp
next
  case (2 b0 bs)
  then show ?case
    by (fastforce split: if_splits list.splits)
qed

lemma repr_octet_nonempty: "1 \<le> length (repr_octet q c)"
  by (simp add: repr_octet_def)

lemma length_concat_repr: "length cs \<le> length (concat (map (repr_octet q) cs))"
proof (induction cs)
  case Nil
  show ?case by simp
next
  case (Cons c cs)
  have "1 \<le> length (repr_octet q c)" by (rule repr_octet_nonempty)
  with Cons show ?case by simp
qed

lemma bytes_repr_longer: "length bs + 3 \<le> length (bytes_repr bs)"
  using length_concat_repr [of "map unat bs" "repr_quote (map unat bs)"]
  by (simp add: bytes_repr_def Let_def)

lemma bytes_repr_not_decoded:
  assumes "utf8_decode bs = Some s"
  shows "bytes_repr bs \<noteq> s"
proof
  assume "bytes_repr bs = s"
  moreover from assms have "length s \<le> length bs"
    using decode_octets_length [of "map unat bs" s] by (simp add: utf8_decode_def)
  moreover note bytes_repr_longer [of bs]
  ultimately show False by simp
qed

lemma decode_hi: "utf8_decode [0x68, 0x69] = Some (asc ''hi'')"
  by (simp add: utf8_decode_def asc_def)

lemma ready_world_ready: "log_ready ready_world"
  by (simp add: log_ready_def ready_world_def)

subsection \<open>The decoder accepts exactly the UTF-8 forms of scalar values\<close>

lemma cont_mod: "cont (128 + n mod 64)"
proof -
  have "n mod 64 < 64" by simp
  then show ?thesis unfolding cont_def by linarith
qed

lemma decode_encode_1:
  assumes "c < 0x80"
  shows "decode_octets (encode_point c @ bs) = map_option ((#) c) (decode_octets bs)"
  using assms by (simp add: encode_point_def)

lemma div_lower: "k * d \<le> c \<Longrightarrow> 0 < d \<Longrightarrow> k \<le> c div (d::nat)"
  by (simp add: less_eq_div_iff_mult_less_eq)

lemma div_upper: "c < k * d \<Longrightarrow> c div (d::nat) < k"
  by (rule less_mult_imp_div_less)

lemma decode_encode_2:
  assumes "0x80 \<le> c" "c < 0x800"
  shows "decode_octets (encode_point c @ bs) = map_option ((#) c) (decode_octets bs)"
proof -
  define q where "q = c div 64"
  define r where "r = c mod 64"
  have c: "c = q * 64 + r" by (simp add: q_def r_def)
  have "2 \<le> q" unfolding q_def using assms(1) by (intro div_lower) simp_all
  moreover have "q < 32" unfolding q_def using assms(2) by (intro div_upper) simp
  ultimately have b: "194 \<le> 192 + q" "192 + q \<le> 223" "\<not> 192 + q < 128" by simp_all
  have "encode_point c = [192 + q, 128 + r]"
    using assms by (simp add: encode_point_def q_def r_def)
  then show ?thesis
    using b by (simp add: cont_mod [of c, folded r_def] c)
qed


lemma decode_encode_3:
  assumes "0x800 \<le> c" "c < 0x10000" "\<not> (0xD800 \<le> c \<and> c \<le> 0xDFFF)"
  shows "decode_octets (encode_point c @ bs) = map_option ((#) c) (decode_octets bs)"
proof -
  define q where "q = c div 64"
  define r where "r = c mod 64"
  define h where "h = q div 64"
  define m where "m = q mod 64"
  have c: "c = q * 64 + r" by (simp add: q_def r_def)
  have q: "q = h * 64 + m" by (simp add: h_def m_def)
  have r: "r < 64" and m: "m < 64" by (simp_all add: r_def m_def)
  have h4096: "c div 4096 = h"
    unfolding h_def q_def by (simp add: div_mult2_eq [symmetric])
  have ql: "32 \<le> q" unfolding q_def using assms(1) by (intro div_lower) simp_all
  have qu: "q < 1024" unfolding q_def using assms(2) by (intro div_upper) simp
  have hu: "h < 16" unfolding h_def using qu by (intro div_upper) simp
  have z: "h = 0 \<Longrightarrow> 32 \<le> m" using ql q by simp
  have d: "h = 13 \<Longrightarrow> m < 32"
  proof -
    assume h13: "h = 13"
    have "c \<le> 0xDFFF" using c q r m h13 by simp
    with assms(3) have "c < 0xD800" by simp
    then have "q < 864" unfolding q_def by (intro div_upper) simp
    with q h13 show "m < 32" by simp
  qed
  have s: "second_ok (224 + h) (128 + m)"
    using m z d hu unfolding second_ok_def cont_def by auto
  have b: "\<not> 224 + h < 128" "\<not> (194 \<le> 224 + h \<and> 224 + h \<le> 223)"
    "224 \<le> 224 + h" "224 + h \<le> 239"
    using hu by simp_all
  have v: "h * 4096 + m * 64 + r = c" using c q by simp
  have "encode_point c = [224 + h, 128 + m, 128 + r]"
    using assms by (simp add: encode_point_def h4096 m_def q_def r_def)
  then show ?thesis
    using b s v by (simp add: cont_mod [of c, folded r_def] cont_mod [of q, folded m_def])
qed

lemma decode_encode_4:
  assumes "0x10000 \<le> c" "c < 0x110000"
  shows "decode_octets (encode_point c @ bs) = map_option ((#) c) (decode_octets bs)"
proof -
  define q where "q = c div 64"
  define r where "r = c mod 64"
  define h where "h = q div 64"
  define m where "m = q mod 64"
  define t where "t = h div 64"
  define n where "n = h mod 64"
  have c: "c = q * 64 + r" by (simp add: q_def r_def)
  have q: "q = h * 64 + m" by (simp add: h_def m_def)
  have h: "h = t * 64 + n" by (simp add: t_def n_def)
  have r: "r < 64" and m: "m < 64" and n: "n < 64" by (simp_all add: r_def m_def n_def)
  have h4096: "c div 4096 = h"
    unfolding h_def q_def by (simp add: div_mult2_eq [symmetric])
  have t262144: "c div 262144 = t"
    unfolding t_def h_def q_def by (simp add: div_mult2_eq [symmetric])
  have ql: "1024 \<le> q" unfolding q_def using assms(1) by (intro div_lower) simp_all
  have qu: "q < 17408" unfolding q_def using assms(2) by (intro div_upper) simp
  have hl: "16 \<le> h" unfolding h_def using ql by (intro div_lower) simp_all
  have hu: "h < 272" unfolding h_def using qu by (intro div_upper) simp
  have tu: "t < 5" unfolding t_def using hu by (intro div_upper) simp
  have z: "t = 0 \<Longrightarrow> 16 \<le> n" using hl h by simp
  have d: "t = 4 \<Longrightarrow> n < 16" using hu h by simp
  have s: "second_ok (240 + t) (128 + n)"
    using n z d tu unfolding second_ok_def cont_def by auto
  have b: "\<not> 240 + t < 128" "\<not> (194 \<le> 240 + t \<and> 240 + t \<le> 223)"
    "\<not> (224 \<le> 240 + t \<and> 240 + t \<le> 239)" "240 \<le> 240 + t" "240 + t \<le> 244"
    using tu by simp_all
  have v: "t * 262144 + n * 4096 + m * 64 + r = c" using c q h by simp
  have "encode_point c = [240 + t, 128 + n, 128 + m, 128 + r]"
    using assms by (simp add: encode_point_def h4096 t262144 n_def m_def q_def r_def)
  then show ?thesis
    using b s v
    by (simp add: cont_mod [of c, folded r_def] cont_mod [of q, folded m_def]
        cont_mod [of h, folded n_def])
qed

lemma decode_encode_point:
  assumes "is_scalar c"
  shows "decode_octets (encode_point c @ bs) = map_option ((#) c) (decode_octets bs)"
proof -
  consider "c < 0x80" | "0x80 \<le> c" "c < 0x800"
    | "0x800 \<le> c" "c < 0x10000" "\<not> (0xD800 \<le> c \<and> c \<le> 0xDFFF)"
    | "0x10000 \<le> c" "c < 0x110000"
    using assms unfolding is_scalar_def by linarith
  then show ?thesis
  proof cases
    case 1
    then show ?thesis by (rule decode_encode_1)
  next
    case 2
    then show ?thesis by (rule decode_encode_2)
  next
    case 3
    then show ?thesis by (rule decode_encode_3)
  next
    case 4
    then show ?thesis by (rule decode_encode_4)
  qed
qed

lemma decode_encode:
  "list_all is_scalar s \<Longrightarrow> decode_octets (concat (map encode_point s)) = Some s"
  by (induction s) (simp_all add: decode_encode_point)


lemma cont_offset: "cont b \<Longrightarrow> b - 128 < 64 \<and> b = 128 + (b - 128)"
  unfolding cont_def by linarith

lemma encode_decoded_2:
  assumes "0xC2 \<le> b0" "b0 \<le> 0xDF" "cont b1"
  shows "is_scalar ((b0 - 0xC0) * 64 + (b1 - 0x80))"
    and "encode_point ((b0 - 0xC0) * 64 + (b1 - 0x80)) = [b0, b1]"
proof -
  define x where "x = b0 - 192"
  define y where "y = b1 - 128"
  have x: "2 \<le> x" "x \<le> 31" "b0 = 192 + x" using assms(1,2) by (simp_all add: x_def)
  have y: "y < 64" "b1 = 128 + y" using cont_offset [OF assms(3)] by (simp_all add: y_def)
  define c where "c = x * 64 + y"
  have dq: "c div 64 = x" and dr: "c mod 64 = y" using y(1) by (simp_all add: c_def)
  have rg: "128 \<le> c" "c < 2048" using x y by (simp_all add: c_def)
  have "is_scalar c" using rg by (simp add: is_scalar_def)
  moreover have "encode_point c = [b0, b1]"
    using rg by (simp add: encode_point_def dq dr x(3) y(2))
  ultimately show "is_scalar ((b0 - 0xC0) * 64 + (b1 - 0x80))"
    and "encode_point ((b0 - 0xC0) * 64 + (b1 - 0x80)) = [b0, b1]"
    by (simp_all add: c_def x_def y_def)
qed

lemma encode_decoded_3:
  assumes "0xE0 \<le> b0" "b0 \<le> 0xEF" "second_ok b0 b1" "cont b2"
  shows "is_scalar ((b0 - 0xE0) * 4096 + (b1 - 0x80) * 64 + (b2 - 0x80))"
    and "encode_point ((b0 - 0xE0) * 4096 + (b1 - 0x80) * 64 + (b2 - 0x80)) = [b0, b1, b2]"
proof -
  define x where "x = b0 - 224"
  define y where "y = b1 - 128"
  define z where "z = b2 - 128"
  have x: "x \<le> 15" "b0 = 224 + x" using assms(1,2) by (simp_all add: x_def)
  have c1: "cont b1"
    using assms(3) by (auto simp: second_ok_def cont_def split: if_splits)
  have y: "y < 64" "b1 = 128 + y" using cont_offset [OF c1] by (simp_all add: y_def)
  have z: "z < 64" "b2 = 128 + z" using cont_offset [OF assms(4)] by (simp_all add: z_def)
  have y0: "x = 0 \<Longrightarrow> 32 \<le> y"
    using assms(3) by (simp add: second_ok_def x(2) y(2))
  have y13: "x = 13 \<Longrightarrow> y < 32"
    using assms(3) by (simp add: second_ok_def x(2) y(2))
  define q where "q = x * 64 + y"
  define c where "c = q * 64 + z"
  have dq: "c div 64 = q" and dr: "c mod 64 = z" using z(1) by (simp_all add: c_def)
  have qq: "q div 64 = x" and qr: "q mod 64 = y" using y(1) by (simp_all add: q_def)
  have d4096: "c div 4096 = x"
    using dq qq by (simp add: div_mult2_eq [symmetric, of c 64 64, simplified])
  have ql: "32 \<le> q" using y0 by (cases "x = 0") (simp_all add: q_def)
  have rg: "2048 \<le> c" "c < 65536" using ql x(1) y(1) z(1) by (simp_all add: c_def q_def)
  have ns: "\<not> (55296 \<le> c \<and> c \<le> 57343)"
  proof -
    consider "x \<le> 12" | "x = 13" | "14 \<le> x" by linarith
    then show ?thesis
    proof cases
      case 1
      then have "q < 832" using y(1) by (simp add: q_def)
      then show ?thesis using z(1) by (simp add: c_def)
    next
      case 2
      then have "q < 864" using y13 by (simp add: q_def)
      then show ?thesis using z(1) by (simp add: c_def)
    next
      case 3
      then have "896 \<le> q" by (simp add: q_def)
      then show ?thesis by (simp add: c_def)
    qed
  qed
  have "is_scalar c" using rg ns by (simp add: is_scalar_def)
  moreover have "encode_point c = [b0, b1, b2]"
    using rg by (simp add: encode_point_def dq dr d4096 qr x(2) y(2) z(2))
  moreover have "(b0 - 0xE0) * 4096 + (b1 - 0x80) * 64 + (b2 - 0x80) = c"
    by (simp add: c_def q_def x_def y_def z_def)
  ultimately show "is_scalar ((b0 - 0xE0) * 4096 + (b1 - 0x80) * 64 + (b2 - 0x80))"
    and "encode_point ((b0 - 0xE0) * 4096 + (b1 - 0x80) * 64 + (b2 - 0x80)) = [b0, b1, b2]"
    by simp_all
qed

lemma encode_decoded_4:
  assumes "0xF0 \<le> b0" "b0 \<le> 0xF4" "second_ok b0 b1" "cont b2" "cont b3"
  shows "is_scalar ((b0 - 0xF0) * 262144 + (b1 - 0x80) * 4096 + (b2 - 0x80) * 64
                    + (b3 - 0x80))"
    and "encode_point ((b0 - 0xF0) * 262144 + (b1 - 0x80) * 4096 + (b2 - 0x80) * 64
                       + (b3 - 0x80)) = [b0, b1, b2, b3]"
proof -
  define x where "x = b0 - 240"
  define y where "y = b1 - 128"
  define z where "z = b2 - 128"
  define u where "u = b3 - 128"
  have x: "x \<le> 4" "b0 = 240 + x" using assms(1,2) by (simp_all add: x_def)
  have c1: "cont b1"
    using assms(3) by (auto simp: second_ok_def cont_def split: if_splits)
  have y: "y < 64" "b1 = 128 + y" using cont_offset [OF c1] by (simp_all add: y_def)
  have z: "z < 64" "b2 = 128 + z" using cont_offset [OF assms(4)] by (simp_all add: z_def)
  have u: "u < 64" "b3 = 128 + u" using cont_offset [OF assms(5)] by (simp_all add: u_def)
  have y0: "x = 0 \<Longrightarrow> 16 \<le> y"
    using assms(3) by (simp add: second_ok_def x(2) y(2))
  have y4: "x = 4 \<Longrightarrow> y < 16"
    using assms(3) by (simp add: second_ok_def x(2) y(2))
  define h where "h = x * 64 + y"
  define q where "q = h * 64 + z"
  define c where "c = q * 64 + u"
  have dq: "c div 64 = q" and dr: "c mod 64 = u" using u(1) by (simp_all add: c_def)
  have qq: "q div 64 = h" and qr: "q mod 64 = z" using z(1) by (simp_all add: q_def)
  have hq: "h div 64 = x" and hr: "h mod 64 = y" using y(1) by (simp_all add: h_def)
  have d4096: "c div 4096 = h"
    using dq qq by (simp add: div_mult2_eq [symmetric, of c 64 64, simplified])
  have d262144: "c div 262144 = x"
    using d4096 hq by (simp add: div_mult2_eq [symmetric, of c 4096 64, simplified])
  have hl: "16 \<le> h" using y0 by (cases "x = 0") (simp_all add: h_def)
  have hu: "h < 272"
  proof (cases "x = 4")
    case True
    then show ?thesis using y4 by (simp add: h_def)
  next
    case False
    then have "x \<le> 3" using x(1) by simp
    then show ?thesis using y(1) by (simp add: h_def)
  qed
  have rg: "65536 \<le> c" "c < 1114112"
    using hl hu z(1) u(1) by (simp_all add: c_def q_def)
  have "is_scalar c" using rg by (simp add: is_scalar_def)
  moreover have "encode_point c = [b0, b1, b2, b3]"
    using rg by (simp add: encode_point_def dq dr d4096 d262144 qr hr x(2) y(2) z(2) u(2))
  moreover have "(b0 - 0xF0) * 262144 + (b1 - 0x80) * 4096 + (b2 - 0x80) * 64
                 + (b3 - 0x80) = c"
    by (simp add: c_def q_def h_def x_def y_def z_def u_def)
  ultimately show "is_scalar ((b0 - 0xF0) * 262144 + (b1 - 0x80) * 4096 + (b2 - 0x80) * 64
                    + (b3 - 0x80))"
    and "encode_point ((b0 - 0xF0) * 262144 + (b1 - 0x80) * 4096 + (b2 - 0x80) * 64
                       + (b3 - 0x80)) = [b0, b1, b2, b3]"
    by simp_all
qed


lemma encode_point_ascii: "c < 0x80 \<Longrightarrow> is_scalar c \<and> encode_point c = [c]"
  by (simp add: is_scalar_def encode_point_def)

lemma decode_octets_canonical:
  "decode_octets bs = Some s \<Longrightarrow> list_all is_scalar s \<and> concat (map encode_point s) = bs"
proof (induction bs arbitrary: s rule: decode_octets.induct)
  case 1
  then show ?case by simp
next
  case (2 b0 bs)
  consider (one) "b0 < 0x80"
    | (two) "\<not> b0 < 0x80" "0xC2 \<le> b0 \<and> b0 \<le> 0xDF"
    | (three) "\<not> b0 < 0x80" "\<not> (0xC2 \<le> b0 \<and> b0 \<le> 0xDF)" "0xE0 \<le> b0 \<and> b0 \<le> 0xEF"
    | (four) "\<not> b0 < 0x80" "\<not> (0xC2 \<le> b0 \<and> b0 \<le> 0xDF)" "\<not> (0xE0 \<le> b0 \<and> b0 \<le> 0xEF)"
        "0xF0 \<le> b0 \<and> b0 \<le> 0xF4"
    | (none) "\<not> b0 < 0x80" "\<not> (0xC2 \<le> b0 \<and> b0 \<le> 0xDF)" "\<not> (0xE0 \<le> b0 \<and> b0 \<le> 0xEF)"
        "\<not> (0xF0 \<le> b0 \<and> b0 \<le> 0xF4)"
    by blast
  then show ?case
  proof cases
    case one
    with "2.prems" obtain t where t: "decode_octets bs = Some t" "s = b0 # t"
      by auto
    from "2.IH"(1) [OF one t(1)] encode_point_ascii [OF one] t(2)
    show ?thesis by simp
  next
    case two
    with "2.prems" obtain b1 r t where
      t: "bs = b1 # r" "cont b1" "decode_octets r = Some t"
         "s = ((b0 - 0xC0) * 64 + (b1 - 0x80)) # t"
      by (auto split: list.splits if_splits)
    from two have b: "0xC2 \<le> b0" "b0 \<le> 0xDF" by simp_all
    from "2.IH"(2) [OF two(1) two(2) t(1) t(2) t(3)]
      encode_decoded_2 [OF b t(2)] t(1,4)
    show ?thesis by simp
  next
    case three
    with "2.prems" obtain b1 b2 r t where
      t: "bs = b1 # b2 # r" "second_ok b0 b1 \<and> cont b2" "decode_octets r = Some t"
         "s = ((b0 - 0xE0) * 4096 + (b1 - 0x80) * 64 + (b2 - 0x80)) # t"
      by (auto split: list.splits if_splits)
    from three have b: "0xE0 \<le> b0" "b0 \<le> 0xEF" by simp_all
    from t(2) have k: "second_ok b0 b1" "cont b2" by simp_all
    from "2.IH"(3) [OF three(1) three(2) three(3) t(1) refl t(2) t(3)]
      encode_decoded_3 [OF b k] t(1,4)
    show ?thesis by simp
  next
    case four
    with "2.prems" obtain b1 b2 b3 r t where
      t: "bs = b1 # b2 # b3 # r" "second_ok b0 b1 \<and> cont b2 \<and> cont b3"
         "decode_octets r = Some t"
         "s = ((b0 - 0xF0) * 262144 + (b1 - 0x80) * 4096 + (b2 - 0x80) * 64
               + (b3 - 0x80)) # t"
      by (auto split: list.splits if_splits)
    from four have b: "0xF0 \<le> b0" "b0 \<le> 0xF4" by simp_all
    from t(2) have k: "second_ok b0 b1" "cont b2" "cont b3" by simp_all
    from "2.IH"(4) [OF four(1) four(2) four(3) four(4) t(1) refl refl t(2) t(3)]
      encode_decoded_4 [OF b k] t(1,4)
    show ?thesis by simp
  next
    case none
    with "2.prems" show ?thesis by simp
  qed
qed

subsection \<open>The bytes literal determines the octets\<close>

lemma hex_value_digit: "d < 16 \<Longrightarrow> hex_value (hex_digit d) = d"
  by (simp add: hex_value_def hex_digit_def)

lemma unescape_repr_octet:
  assumes "c < 256" and "q = 34 \<or> q = 39"
  shows "unescape (repr_octet q c @ cs) = c # unescape cs"
proof -
  have d: "c div 16 < 16" using assms(1) by (intro less_mult_imp_div_less) simp
  have m: "c mod 16 < 16" by simp
  have r: "c div 16 * 16 + c mod 16 = c" by simp
  show ?thesis
    using assms(2) r
    by (auto simp: repr_octet_def hex_value_digit [OF d] hex_value_digit [OF m])
qed

lemma unescape_repr_octets:
  assumes "q = 34 \<or> q = 39" and "\<forall>c \<in> set cs. c < 256"
  shows "unescape (concat (map (repr_octet q) cs)) = cs"
  using assms(2)
proof (induction cs)
  case Nil
  show ?case by simp
next
  case (Cons c cs)
  then show ?case
    using unescape_repr_octet [OF _ assms(1), of c] by simp
qed

lemma unat_byte_less: "unat (b :: byte) < 256"
  using unsigned_less [of b, where 'a = nat] by simp

lemma read_literal_bytes_repr: "read_literal (bytes_repr bs) = map unat bs"
proof -
  have q: "repr_quote (map unat bs) = 34 \<or> repr_quote (map unat bs) = 39"
    by (simp add: repr_quote_def)
  have "\<forall>c \<in> set (map unat bs). c < 256"
    by (auto simp: unat_byte_less)
  from unescape_repr_octets [OF q this] show ?thesis
    by (simp add: read_literal_def bytes_repr_def Let_def butlast_append)
qed

lemma bytes_repr_inj: "bytes_repr bs = bytes_repr bs' \<Longrightarrow> bs = bs'"
proof -
  assume "bytes_repr bs = bytes_repr bs'"
  then have "read_literal (bytes_repr bs) = read_literal (bytes_repr bs')" by simp
  then have "map unat bs = map unat bs'" by (simp only: read_literal_bytes_repr)
  then show "bs = bs'"
    by (simp add: inj_map_eq_map [OF inj_onI])
qed

lemma bytes_repr_head: "hd (bytes_repr bs) = 98"
  by (simp add: bytes_repr_def Let_def)

lemma placeholder_head: "hd (binary_placeholder n) = 91"
  by (simp add: binary_placeholder_def asc_def)

lemma bytes_repr_not_placeholder: "bytes_repr bs \<noteq> binary_placeholder n"
proof
  assume "bytes_repr bs = binary_placeholder n"
  then have "hd (bytes_repr bs) = hd (binary_placeholder n)" by simp
  then show False by (simp add: bytes_repr_head placeholder_head)
qed

lemma decode_ff: "utf8_decode [0xFF] = None"
  by (simp add: utf8_decode_def)

subsection \<open>Where line feeds cannot come from\<close>








subsection \<open>The decoder fails exactly when it reports a fault\<close>

lemma first_fault_iff: "(first_fault p bs = None) = (decode_octets bs \<noteq> None)"
proof (induction bs arbitrary: p rule: decode_octets.induct)
  case 1
  show ?case by simp
next
  case (2 b0 bs)
  consider (one) "b0 < 0x80"
    | (two) "\<not> b0 < 0x80" "0xC2 \<le> b0 \<and> b0 \<le> 0xDF"
    | (three) "\<not> b0 < 0x80" "\<not> (0xC2 \<le> b0 \<and> b0 \<le> 0xDF)" "0xE0 \<le> b0 \<and> b0 \<le> 0xEF"
    | (four) "\<not> b0 < 0x80" "\<not> (0xC2 \<le> b0 \<and> b0 \<le> 0xDF)" "\<not> (0xE0 \<le> b0 \<and> b0 \<le> 0xEF)"
        "0xF0 \<le> b0 \<and> b0 \<le> 0xF4"
    | (none) "\<not> b0 < 0x80" "\<not> (0xC2 \<le> b0 \<and> b0 \<le> 0xDF)" "\<not> (0xE0 \<le> b0 \<and> b0 \<le> 0xEF)"
        "\<not> (0xF0 \<le> b0 \<and> b0 \<le> 0xF4)"
    by blast
  then show ?case
  proof cases
    case one
    with "2.IH"(1) [OF one, of "p + 1"] show ?thesis by simp
  next
    case two
    show ?thesis
    proof (cases bs)
      case Nil
      with two show ?thesis by simp
    next
      case (Cons b1 r)
      show ?thesis
      proof (cases "cont b1")
        case True
        with "2.IH"(2) [OF two(1) two(2) Cons True, of "p + 2"] two Cons
        show ?thesis by simp
      next
        case False
        with two Cons show ?thesis by simp
      qed
    qed
  next
    case three
    then have r: "\<not> b0 < 0xC2" "\<not> b0 < 0xE0" "b0 < 0xF0" by linarith+
    show ?thesis
    proof (cases bs)
      case Nil
      with three r show ?thesis by simp
    next
      case c1: (Cons b1 r1)
      show ?thesis
      proof (cases r1)
        case Nil
        with three r c1 show ?thesis by simp
      next
        case c2: (Cons b2 r2)
        show ?thesis
        proof (cases "second_ok b0 b1 \<and> cont b2")
          case True
          with "2.IH"(3) [OF three(1) three(2) three(3) c1 c2 True, of "p + 3"] three r c1 c2
          show ?thesis by simp
        next
          case False
          with three r c1 c2 show ?thesis by auto
        qed
      qed
    qed
  next
    case four
    then have r: "\<not> b0 < 0xC2" "\<not> b0 < 0xE0" "\<not> b0 < 0xF0" "b0 < 0xF5" by linarith+
    show ?thesis
    proof (cases bs)
      case Nil
      with four r show ?thesis by simp
    next
      case c1: (Cons b1 r1)
      show ?thesis
      proof (cases r1)
        case Nil
        with four r c1 show ?thesis by simp
      next
        case c2: (Cons b2 r2)
        show ?thesis
        proof (cases r2)
          case Nil
          with four r c1 c2 show ?thesis by simp
        next
          case c3: (Cons b3 r3)
          show ?thesis
          proof (cases "second_ok b0 b1 \<and> cont b2 \<and> cont b3")
            case True
            with "2.IH"(4) [OF four(1) four(2) four(3) four(4) c1 c2 c3 True, of "p + 4"]
              four r c1 c2 c3
            show ?thesis by simp
          next
            case False
            with four r c1 c2 c3 show ?thesis by auto
          qed
        qed
      qed
    qed
  next
    case none
    then have "b0 < 0xC2 \<or> \<not> b0 < 0xF5" by linarith
    with none show ?thesis by auto
  qed
qed

subsection \<open>Reading the topic\<close>

lemma py_decode_cases:
  obtains s where "utf8_decode bs = Some s" "py_decode bs = Inr s"
  | "utf8_decode bs = None" "py_decode bs = Inl (unicode_decode_error bs)"
  by (cases "utf8_decode bs") (simp_all add: py_decode_def)


lemma topic_Inl: "topic msg = Inl x \<Longrightarrow> utf8_decode (raw_topic msg) = None"
  by (simp add: topic_def py_decode_def split: option.splits)

lemma topic_msg_hi: "topic msg_hi = Inr (asc ''a/b'')"
  by (simp add: topic_def py_decode_def utf8_decode_def msg_hi_def asc_def)

lemma topic_msg_ff: "topic msg_ff = Inr (asc ''a/b'')"
  by (simp add: topic_def py_decode_def utf8_decode_def msg_ff_def asc_def)


lemma topic_msg_bad_topic:
  "topic msg_bad_topic =
     Inl (Exception ([39] @ asc ''utf-8'' @ [39] @ asc '' codec can'' @ [39]
                     @ asc ''t decode byte 0xff in position 0: invalid start byte''))"
  by (simp add: topic_def py_decode_def utf8_decode_def unicode_decode_error_def
      msg_bad_topic_def hex_digit_def str_nat.simps asc_def)

subsection \<open>The callbacks\<close>

lemma on_message_ok:
  assumes "topic msg = Inr t"
  shows "fst (on_message now msg w) = None"
    and "disk (snd (on_message now msg w)) = disk w"
    and "log_file (snd (on_message now msg w)) = log_file w"
    and "calls (snd (on_message now msg w)) = calls w"
    and "console (snd (on_message now msg w)) =
           console w
           @ console_block (strftime now) t (str_int (qos msg)) (str_bool (retain msg))
               (shown_payload (payload msg))"
  using assms by (simp_all add: on_message_def console_block_def Let_def)

lemma on_message_fault:
  assumes "topic msg = Inl x"
  shows "on_message now msg w = (Some x, print (asc ''['' @ strftime now @ asc '']'') w)"
  using assms by (simp add: on_message_def Let_def)

lemma log_to_file_open:
  assumes "topic msg = Inr t" and "log_file w = Some f" and "\<not> closed f"
  shows "log_to_file now msg w =
           (None, w\<lparr>disk := disk w @ buffer f @ log_entry now t msg,
                    log_file := Some (f\<lparr>buffer := []\<rparr>),
                    calls := calls w @ [Write (log_entry now t msg), Flush]\<rparr>)"
  using assms
  by (simp add: log_to_file_def file_write_def file_flush_def called_def Let_def)

lemma log_entry_pattern:
  "log_entry now t msg =
     log_pattern (strftime now) t (str_int (qos msg)) (str_bool (retain msg))
       (format_payload (payload msg)) @ [LF]"
  by (simp add: log_entry_def log_pattern_def)

lemma callback_ready:
  assumes "topic msg = Inr t" and "log_ready w"
  shows "on_message_with_log now1 now2 msg w =
           (None, (snd (on_message now1 msg w))
                    \<lparr>disk := disk w @ log_entry now2 t msg,
                     log_file := Some \<lparr>buffer = [], closed = False\<rparr>,
                     calls := calls w @ [Write (log_entry now2 t msg), Flush]\<rparr>)"
proof -
  obtain r v where v: "on_message now1 msg w = (r, v)"
    by (cases "on_message now1 msg w")
  from on_message_ok [OF assms(1), of now1 w] v assms(2)
  have f: "r = None" "disk v = disk w" "calls v = calls w"
    "log_file v = Some \<lparr>buffer = [], closed = False\<rparr>"
    by (simp_all add: log_ready_def)
  have "log_to_file now2 msg v =
      (None, v\<lparr>disk := disk v @ buffer \<lparr>buffer = [], closed = False\<rparr> @ log_entry now2 t msg,
                log_file := Some (\<lparr>buffer = [], closed = False\<rparr>\<lparr>buffer := []\<rparr>),
                calls := calls v @ [Write (log_entry now2 t msg), Flush]\<rparr>)"
    using assms(1) f(4) by (rule log_to_file_open) simp
  then show ?thesis
    using v f by (simp add: on_message_with_log_def)
qed

lemma callback_fault:
  assumes "topic msg = Inl x"
  shows "on_message_with_log now1 now2 msg w =
           (Some x, print (asc ''['' @ strftime now1 @ asc '']'') w)"
  using assms by (simp add: on_message_with_log_def on_message_fault)

section \<open>The network loop and the whole run\<close>

lemma on_connect_fields [simp]:
  "disk (on_connect rc w) = disk w"
  "log_file (on_connect rc w) = log_file w"
  "calls (on_connect rc w) = calls w @ event_calls (ConnAck rc)"
  by (simp_all add: on_connect_def Let_def)

lemma dispatch_ready:
  assumes "log_ready w"
  shows "\<exists>w'. dispatch ev w = (event_fault ev, w') \<and> log_ready w'
           \<and> disk w' = disk w @ event_entry ev
           \<and> calls w' = calls w @ event_calls ev"
proof (cases ev)
  case (ConnAck rc)
  with assms show ?thesis by (simp add: log_ready_def)
next
  case (Publish now1 now2 msg)
  show ?thesis
  proof (cases "topic msg")
    case (Inl x)
    with Publish assms show ?thesis
      by (simp add: callback_fault log_ready_def)
  next
    case (Inr t)
    with Publish assms show ?thesis
      by (simp add: callback_ready [OF Inr assms] on_message_ok [OF Inr] log_ready_def)
  qed
qed

lemma deliver_ready:
  assumes "log_ready w"
  shows "\<exists>w'. deliver evs fin w = (loop_outcome evs fin, w')
           \<and> log_ready w'
           \<and> disk w' = disk w @ concat (map event_entry (handled evs))
           \<and> calls w' = calls w @ concat (map event_calls (handled evs))"
  using assms
proof (induction evs arbitrary: w)
  case Nil
  then show ?case by (cases fin) (simp_all add: handled_def)
next
  case (Cons ev evs)
  from dispatch_ready [OF Cons.prems, of ev] obtain v where
    v: "dispatch ev w = (event_fault ev, v)" "log_ready v"
       "disk v = disk w @ event_entry ev" "calls v = calls w @ event_calls ev"
    by blast
  show ?case
  proof (cases "event_fault ev")
    case (Some x)
    have "event_entry ev = []" "event_calls ev = []"
      using Some by (cases ev; simp split: sum.splits)+
    with v Some show ?thesis by (simp add: handled_def)
  next
    case None
    from Cons.IH [OF v(2)] obtain w' where
      w': "deliver evs fin v = (loop_outcome evs fin, w')"
          "log_ready w'" "disk w' = disk v @ concat (map event_entry (handled evs))"
          "calls w' = calls v @ concat (map event_calls (handled evs))"
      by blast
    show ?thesis
      using v w' None by (simp add: handled_def)
  qed
qed

lemma try_body_ready:
  assumes "log_ready w"
  shows "\<exists>w'. try_body a e w = (outcome e, w') \<and> log_ready w'
           \<and> disk w' = disk w @ concat (map event_entry (delivered e))
           \<and> calls w' = calls w @ try_calls a e"
proof (cases "connect_raises e")
  case (Some x)
  with assms show ?thesis
    by (simp add: try_body_def client_connect_def outcome_def delivered_def try_calls_def
        log_ready_def Let_def)
next
  case None
  let ?v = "called LoopForever
              (print (asc ''Press Ctrl+C to stop'' @ [LF])
                 (print (asc ''Listening for MQTT messages...'')
                    (called (Connect (broker a) (port a) 60)
                       (print (asc ''Connecting to MQTT broker at '' @ broker a @ asc '':''
                               @ str_int (port a) @ asc ''...'') w))))"
  from assms have r: "log_ready ?v" by (simp add: log_ready_def)
  from deliver_ready [OF r, of "events e" "ending e"] obtain w' where
    w': "deliver (events e) (ending e) ?v = (loop_outcome (events e) (ending e), w')"
        "log_ready w'" "disk w' = disk ?v @ concat (map event_entry (handled (events e)))"
        "calls w' = calls ?v @ concat (map event_calls (handled (events e)))"
    by blast
  have "try_body a e w = deliver (events e) (ending e) ?v"
    using None by (simp add: try_body_def client_connect_def loop_forever_def Let_def)
  with w' None show ?thesis
    by (simp add: outcome_def delivered_def try_calls_def)
qed

subsection \<open>The run before the \<^verbatim>\<open>try\<close> statement\<close>

lemma install_fields:
  "fst (install_paho_mqtt m w) =
     (case m of
        Importable \<Rightarrow> None
      | ImportRaises x \<Rightarrow> Some (Traceback x)
      | PipSucceeds \<Rightarrow> None
      | PipFails \<Rightarrow> Some (ExitCode 1)
      | PipRaises x \<Rightarrow> Some (Traceback x))"
  "disk (snd (install_paho_mqtt m w)) = disk w"
  "log_file (snd (install_paho_mqtt m w)) = log_file w"
  "calls (snd (install_paho_mqtt m w)) = calls w @ install_calls m"
  by (cases m; simp add: install_paho_mqtt_def install_calls_def Let_def)+

lemma main_not_installed:
  assumes "\<not> installed (module e)"
  shows "fst (main a e prior) =
           (case module e of
              ImportRaises x \<Rightarrow> Traceback x
            | PipRaises x \<Rightarrow> Traceback x
            | _ \<Rightarrow> ExitCode 1)"
    and "disk (snd (main a e prior)) = prior"
    and "calls (snd (main a e prior)) = install_calls (module e)"
  using assms
  by (cases "module e";
      simp add: main_def install_paho_mqtt_def install_calls_def installed_def Let_def)+

lemma main_import_raises:
  assumes "installed (module e)" and "import_raises e = Some x"
  shows "fst (main a e prior) = Traceback x"
    and "disk (snd (main a e prior)) = prior"
    and "calls (snd (main a e prior)) = install_calls (module e)"
  using assms
  by (cases "module e";
      simp add: main_def install_paho_mqtt_def install_calls_def installed_def Let_def)+

lemma main_open_raises:
  assumes "reaches_open e" and "open_raises e (log a) = Some x"
  shows "fst (main a e prior) = Traceback x"
    and "disk (snd (main a e prior)) = prior"
    and "calls (snd (main a e prior)) = install_calls (module e) @ [Open (log a) Append]"
    and "log_file (snd (main a e prior)) = None"
  using assms
  by (cases "module e";
      simp add: main_def install_paho_mqtt_def install_calls_def installed_def
        reaches_open_def py_open_def Let_def)+

lemma main_client_raises:
  assumes "reaches_open e" and "open_raises e (log a) = None" and "client_raises e = Some x"
  shows "fst (main a e prior) = Traceback x"
    and "disk (snd (main a e prior)) = prior"
    and "calls (snd (main a e prior)) = setup_calls a e"
  using assms
  by (cases "module e";
      simp add: main_def install_paho_mqtt_def install_calls_def installed_def
        reaches_open_def py_open_def setup_calls_def Let_def)+

subsection \<open>The handlers\<close>

lemma file_close_ready:
  assumes "log_ready w"
  shows "file_close None w =
           (None, w\<lparr>log_file := Some \<lparr>buffer = [], closed = True\<rparr>,
                    calls := calls w @ [Close]\<rparr>)"
    and "file_close (Some x) w =
           (Some x, w\<lparr>log_file := Some \<lparr>buffer = [], closed = True\<rparr>,
                      calls := calls w @ [Close]\<rparr>)"
  using assms by (simp_all add: file_close_def log_ready_def called_def Let_def)

lemma on_interrupt_ready:
  assumes "log_ready v"
  shows "fst (on_interrupt e v) =
           (case disconnect_raises e of
              Some x \<Rightarrow> Traceback x
            | None \<Rightarrow> (case close_raises e of Some x \<Rightarrow> Traceback x | None \<Rightarrow> ExitCode 0))"
    and "calls (snd (on_interrupt e v)) =
           calls v @ Disconnect # (if disconnect_raises e = None then [Close] else [])"
    and "disk (snd (on_interrupt e v)) = disk v"
    and "disconnect_raises e = None \<Longrightarrow>
           log_file (snd (on_interrupt e v)) = Some \<lparr>buffer = [], closed = True\<rparr>"
    and "disconnect_raises e = None \<Longrightarrow> close_raises e = None \<Longrightarrow>
           console (snd (on_interrupt e v)) =
             console v @ LF # asc ''Disconnecting...'' @ [LF] @ asc ''Stopped'' @ [LF]"
proof -
  let ?u = "called Disconnect (print (LF # asc ''Disconnecting...'') v)"
  have r: "log_ready ?u" using assms by (simp add: log_ready_def)
  note c = file_close_ready [OF r]
  show "fst (on_interrupt e v) =
           (case disconnect_raises e of
              Some x \<Rightarrow> Traceback x
            | None \<Rightarrow> (case close_raises e of Some x \<Rightarrow> Traceback x | None \<Rightarrow> ExitCode 0))"
    by (cases "disconnect_raises e"; cases "close_raises e")
      (simp_all add: on_interrupt_def client_disconnect_def c Let_def)
  show "calls (snd (on_interrupt e v)) =
           calls v @ Disconnect # (if disconnect_raises e = None then [Close] else [])"
    by (cases "disconnect_raises e"; cases "close_raises e")
      (simp_all add: on_interrupt_def client_disconnect_def c Let_def)
  show "disk (snd (on_interrupt e v)) = disk v"
    by (cases "disconnect_raises e"; cases "close_raises e")
      (simp_all add: on_interrupt_def client_disconnect_def c Let_def)
  show "disconnect_raises e = None \<Longrightarrow>
           log_file (snd (on_interrupt e v)) = Some \<lparr>buffer = [], closed = True\<rparr>"
    by (cases "close_raises e")
      (simp_all add: on_interrupt_def client_disconnect_def c Let_def)
  show "disconnect_raises e = None \<Longrightarrow> close_raises e = None \<Longrightarrow>
           console (snd (on_interrupt e v)) =
             console v @ LF # asc ''Disconnecting...'' @ [LF] @ asc ''Stopped'' @ [LF]"
    by (simp add: on_interrupt_def client_disconnect_def c Let_def)
qed

lemma on_exception_ready:
  assumes "log_ready v"
  shows "fst (on_exception m e v) =
           (case close_raises e of Some x \<Rightarrow> Traceback x | None \<Rightarrow> ExitCode 1)"
    and "calls (snd (on_exception m e v)) = calls v @ [Close]"
    and "disk (snd (on_exception m e v)) = disk v"
    and "log_file (snd (on_exception m e v)) = Some \<lparr>buffer = [], closed = True\<rparr>"
    and "console (snd (on_exception m e v)) = console v @ asc ''Error: '' @ m @ [LF]"
proof -
  let ?u = "print (asc ''Error: '' @ m) v"
  have r: "log_ready ?u" using assms by (simp add: log_ready_def)
  note c = file_close_ready [OF r]
  show "fst (on_exception m e v) =
           (case close_raises e of Some x \<Rightarrow> Traceback x | None \<Rightarrow> ExitCode 1)"
    and "calls (snd (on_exception m e v)) = calls v @ [Close]"
    and "disk (snd (on_exception m e v)) = disk v"
    and "log_file (snd (on_exception m e v)) = Some \<lparr>buffer = [], closed = True\<rparr>"
    and "console (snd (on_exception m e v)) = console v @ asc ''Error: '' @ m @ [LF]"
    by (cases "close_raises e"; simp add: on_exception_def c Let_def)+
qed

subsection \<open>The run from the \<^verbatim>\<open>try\<close> statement on\<close>

text \<open>
  A run that reaches the \<^verbatim>\<open>try\<close> statement leaves it in a world \<open>v\<close> in which the log file
  is open with an empty buffer and holds the entries of the messages delivered.
\<close>

lemma main_run:
  assumes "reaches_try a e"
  shows "\<exists>v. log_ready v
           \<and> disk v = prior @ concat (map event_entry (delivered e))
           \<and> calls v = setup_calls a e @ try_calls a e
           \<and> main a e prior =
               (case outcome e of
                  None \<Rightarrow> (ExitCode 0, v)
                | Some KeyboardInterrupt \<Rightarrow> on_interrupt e v
                | Some (Exception m) \<Rightarrow> on_exception m e v)"
proof -
  let ?w0 = "\<lparr>console = [], disk = prior, log_file = None, calls = []\<rparr>"
  obtain r w1 where i: "install_paho_mqtt (module e) ?w0 = (r, w1)"
    by (cases "install_paho_mqtt (module e) ?w0")
  from assms have m: "module e = Importable \<or> module e = PipSucceeds"
    and q: "import_raises e = None" "open_raises e (log a) = None" "client_raises e = None"
    by (simp_all add: reaches_try_def reaches_open_def installed_def)
  from m i install_fields [of "module e" ?w0]
  have w1: "r = None" "disk w1 = prior" "calls w1 = install_calls (module e)"
    by auto
  obtain w2 where o: "py_open (log a) Append None w1 = (None, w2)"
    and w2: "log_ready w2" "disk w2 = prior"
      "calls w2 = install_calls (module e) @ [Open (log a) Append]"
    by (simp add: py_open_def log_ready_def w1 Let_def)
  let ?w3 = "called Client w2"
  have r3: "log_ready ?w3" using w2(1) by (simp add: log_ready_def)
  from try_body_ready [OF r3, of a e] obtain v where
    v: "try_body a e ?w3 = (outcome e, v)" "log_ready v"
       "disk v = disk ?w3 @ concat (map event_entry (delivered e))"
       "calls v = calls ?w3 @ try_calls a e"
    by blast
  have "main a e prior =
          (case outcome e of
             None \<Rightarrow> (ExitCode 0, v)
           | Some KeyboardInterrupt \<Rightarrow> on_interrupt e v
           | Some (Exception m) \<Rightarrow> on_exception m e v)"
    using i w1(1) q o v(1)
    by (simp add: main_def Let_def split: option.splits exn.splits)
  with v w2 show ?thesis by (auto simp: setup_calls_def)
qed

lemma outcome_cases:
  obtains "outcome e = None" | "outcome e = Some KeyboardInterrupt"
  | m where "outcome e = Some (Exception m)"
proof (cases "outcome e")
  case None
  then show ?thesis using that by blast
next
  case (Some x)
  then show ?thesis using that by (cases x) blast+
qed

lemma run_cases:
  obtains (a) "\<not> installed (module e)"
  | (b) x where "installed (module e)" "import_raises e = Some x"
  | (c) x where "reaches_open e" "open_raises e (log a) = Some x"
  | (d) x where "reaches_open e" "open_raises e (log a) = None" "client_raises e = Some x"
  | (t) "reaches_try a e"
proof (cases "installed (module e)")
  case False
  then show ?thesis by (rule a)
next
  case i: True
  show ?thesis
  proof (cases "import_raises e")
    case (Some x)
    with i show ?thesis by (rule b)
  next
    case None
    with i have o: "reaches_open e" by (simp add: reaches_open_def)
    show ?thesis
    proof (cases "open_raises e (log a)")
      case (Some x)
      with o show ?thesis by (rule c)
    next
      case n: None
      show ?thesis
      proof (cases "client_raises e")
        case (Some x)
        with o n show ?thesis by (rule d)
      next
        case None
        with o n have "reaches_try a e" by (simp add: reaches_try_def)
        then show ?thesis by (rule t)
      qed
    qed
  qed
qed

text \<open>The calls, the file content and the end of every run.\<close>

lemma main_calls: "calls (snd (main a e prior)) = run_calls a e"
proof -
  show ?thesis
  proof (cases rule: run_cases [where e = e and a = a])
    case a
    with main_not_installed(3) [OF a] show ?thesis
      by (simp add: run_calls_def reaches_open_def)
  next
    case b
    with main_import_raises(3) [OF b] show ?thesis
      by (simp add: run_calls_def reaches_open_def)
  next
    case c
    with main_open_raises(3) [OF c] show ?thesis by (simp add: run_calls_def)
  next
    case d
    with main_client_raises(3) [OF d] show ?thesis by (simp add: run_calls_def)
  next
    case t
    then have q: "reaches_open e" "open_raises e (log a) = None" "client_raises e = None"
      by (simp_all add: reaches_try_def)
    from main_run [OF t, of prior] obtain v where
      v: "log_ready v" "calls v = setup_calls a e @ try_calls a e"
         "main a e prior =
            (case outcome e of
               None \<Rightarrow> (ExitCode 0, v)
             | Some KeyboardInterrupt \<Rightarrow> on_interrupt e v
             | Some (Exception m) \<Rightarrow> on_exception m e v)"
      by blast
    show ?thesis
    proof (cases e rule: outcome_cases)
      case 1
      with v q show ?thesis by (simp add: run_calls_def handler_calls_def)
    next
      case 2
      with v q on_interrupt_ready(2) [OF v(1), of e] show ?thesis
        by (simp add: run_calls_def handler_calls_def)
    next
      case (3 m)
      with v q on_exception_ready(2) [OF v(1), of m e] show ?thesis
        by (simp add: run_calls_def handler_calls_def)
    qed
  qed
qed

lemma main_disk:
  "disk (snd (main a e prior)) =
     prior @ (if reaches_try a e then concat (map event_entry (delivered e)) else [])"
proof -
  show ?thesis
  proof (cases rule: run_cases [where e = e and a = a])
    case a
    with main_not_installed(2) [OF a] show ?thesis
      by (simp add: reaches_try_def reaches_open_def)
  next
    case b
    with main_import_raises(2) [OF b] show ?thesis
      by (simp add: reaches_try_def reaches_open_def)
  next
    case c
    with main_open_raises(2) [OF c] show ?thesis by (simp add: reaches_try_def)
  next
    case d
    with main_client_raises(2) [OF d] show ?thesis by (simp add: reaches_try_def)
  next
    case t
    from main_run [OF t, of prior] obtain v where
      v: "log_ready v" "disk v = prior @ concat (map event_entry (delivered e))"
         "main a e prior =
            (case outcome e of
               None \<Rightarrow> (ExitCode 0, v)
             | Some KeyboardInterrupt \<Rightarrow> on_interrupt e v
             | Some (Exception m) \<Rightarrow> on_exception m e v)"
      by blast
    show ?thesis
    proof (cases e rule: outcome_cases)
      case 1
      with v t show ?thesis by simp
    next
      case 2
      with v t on_interrupt_ready(3) [OF v(1), of e] show ?thesis by simp
    next
      case (3 m)
      with v t on_exception_ready(3) [OF v(1), of m e] show ?thesis by simp
    qed
  qed
qed

subsection \<open>The concrete inputs, evaluated\<close>

lemma strftime_example: "strftime example_now = asc ''2024-03-09 07:05:00''"
  by (simp add: strftime_def example_now_def zfill_def str_nat.simps asc_def)

lemma example_now_reading: "clock_reading example_now"
  by (simp add: clock_reading_def example_now_def)

lemma str_int_small: "str_int 0 = asc ''0''" "str_int 1 = asc ''1''"
  by (simp_all add: str_int_def str_nat.simps asc_def)

lemma str_bool_values: "str_bool True = asc ''True''" "str_bool False = asc ''False''"
  by (simp_all add: str_bool_def)

lemma bytes_repr_hi: "bytes_repr [0x68, 0x69] = [98, 39] @ asc ''hi'' @ [39]"
  by (simp add: bytes_repr_def repr_quote_def repr_octet_def asc_def)

lemma bytes_repr_ff: "bytes_repr [0xFF] = [98, 39, 92] @ asc ''xff'' @ [39]"
  by (simp add: bytes_repr_def repr_quote_def repr_octet_def hex_digit_def asc_def)

lemma placeholder_one: "binary_placeholder 1 = asc ''[Binary data: 1 bytes]''"
  by (simp add: binary_placeholder_def str_nat.simps asc_def)

lemma callback_msg_hi:
  "fst (on_message_with_log example_now example_now msg_hi ready_world) = None"
  "console (snd (on_message_with_log example_now example_now msg_hi ready_world)) =
     console_block (asc ''2024-03-09 07:05:00'') (asc ''a/b'') (asc ''1'') (asc ''False'')
       (asc ''hi'')"
  "disk (snd (on_message_with_log example_now example_now msg_hi ready_world)) =
     asc ''old''
     @ log_pattern (asc ''2024-03-09 07:05:00'') (asc ''a/b'') (asc ''1'') (asc ''False'')
         ([98, 39] @ asc ''hi'' @ [39])
     @ [LF]"
proof -
  have q: "qos msg_hi = 1" "retain msg_hi = False" "payload msg_hi = Bytes [0x68, 0x69]"
    by (simp_all add: msg_hi_def)
  have d: "disk ready_world = asc ''old''" "console ready_world = []"
    by (simp_all add: ready_world_def)
  note c = callback_ready [OF topic_msg_hi ready_world_ready, of example_now example_now]
  show "fst (on_message_with_log example_now example_now msg_hi ready_world) = None"
    by (simp add: c)
  show "console (snd (on_message_with_log example_now example_now msg_hi ready_world)) =
     console_block (asc ''2024-03-09 07:05:00'') (asc ''a/b'') (asc ''1'') (asc ''False'')
       (asc ''hi'')"
    by (simp add: c on_message_ok [OF topic_msg_hi] q d strftime_example str_int_small
        str_bool_values shown_payload_def decode_hi)
  show "disk (snd (on_message_with_log example_now example_now msg_hi ready_world)) =
     asc ''old''
     @ log_pattern (asc ''2024-03-09 07:05:00'') (asc ''a/b'') (asc ''1'') (asc ''False'')
         ([98, 39] @ asc ''hi'' @ [39])
     @ [LF]"
    by (simp add: c log_entry_pattern q d strftime_example str_int_small str_bool_values
        format_payload_def bytes_repr_hi)
qed

lemma callback_msg_ff:
  "fst (on_message_with_log example_now example_now msg_ff ready_world) = None"
  "console (snd (on_message_with_log example_now example_now msg_ff ready_world)) =
     console_block (asc ''2024-03-09 07:05:00'') (asc ''a/b'') (asc ''0'') (asc ''True'')
       (asc ''[Binary data: 1 bytes]'')"
  "disk (snd (on_message_with_log example_now example_now msg_ff ready_world)) =
     asc ''old''
     @ log_pattern (asc ''2024-03-09 07:05:00'') (asc ''a/b'') (asc ''0'') (asc ''True'')
         ([98, 39, 92] @ asc ''xff'' @ [39])
     @ [LF]"
proof -
  have q: "qos msg_ff = 0" "retain msg_ff = True" "payload msg_ff = Bytes [0xFF]"
    by (simp_all add: msg_ff_def)
  have d: "disk ready_world = asc ''old''" "console ready_world = []"
    by (simp_all add: ready_world_def)
  note c = callback_ready [OF topic_msg_ff ready_world_ready, of example_now example_now]
  show "fst (on_message_with_log example_now example_now msg_ff ready_world) = None"
    by (simp add: c)
  show "console (snd (on_message_with_log example_now example_now msg_ff ready_world)) =
     console_block (asc ''2024-03-09 07:05:00'') (asc ''a/b'') (asc ''0'') (asc ''True'')
       (asc ''[Binary data: 1 bytes]'')"
    using placeholder_one
    by (simp add: c on_message_ok [OF topic_msg_ff] q d strftime_example str_int_small
        str_bool_values shown_payload_def decode_ff binary_placeholder_def)
  show "disk (snd (on_message_with_log example_now example_now msg_ff ready_world)) =
     asc ''old''
     @ log_pattern (asc ''2024-03-09 07:05:00'') (asc ''a/b'') (asc ''0'') (asc ''True'')
         ([98, 39, 92] @ asc ''xff'' @ [39])
     @ [LF]"
    by (simp add: c log_entry_pattern q d strftime_example str_int_small str_bool_values
        format_payload_def bytes_repr_ff)
qed

lemma log_pattern_payload_inj:
  "(log_pattern ts t q r p = log_pattern ts t q r p') = (p = p')"
  by (simp add: log_pattern_def)

section \<open>Payload text on the console and in the log file\<close>

text \<open>
  What the callback does with a byte payload in general, for a topic that decodes and
  the log file open: the console block carries the decoded payload, or the placeholder
  with the byte count when the payload is not UTF-8, and the entry appended to the log
  file carries the bytes literal of the payload, which is neither of the two.
\<close>

lemma payload_text_of_bytes:
  assumes "payload msg = Bytes bs" and "topic msg = Inr t" and "log_ready w"
  shows "\<exists>w'. on_message_with_log now1 now2 msg w = (None, w')
           \<and> console w' = console w @ console_block (strftime now1) t
                 (str_int (qos msg)) (str_bool (retain msg))
                 (case utf8_decode bs of Some s \<Rightarrow> s | None \<Rightarrow> binary_placeholder (length bs))
           \<and> disk w' = disk w @ log_pattern (strftime now2) t
                 (str_int (qos msg)) (str_bool (retain msg)) (bytes_repr bs) @ [LF]
           \<and> utf8_decode bs \<noteq> Some (bytes_repr bs)
           \<and> bytes_repr bs \<noteq> binary_placeholder (length bs)"
  using assms bytes_repr_not_decoded [of bs "bytes_repr bs"]
    bytes_repr_not_placeholder [of bs "length bs"]
  by (auto simp: callback_ready on_message_ok log_entry_pattern shown_payload_def
      format_payload_def binary_placeholder_def split: option.splits)

text \<open>
  Claim C1, at the payload \<^verbatim>\<open>hi\<close>. The two octets decode as UTF-8 to the string \<^verbatim>\<open>hi\<close>.
  The callback returns normally; the console block it prints has the payload line
  \<^verbatim>\<open>Payload: hi\<close>, as the claim says; the line it appends to the log file ends in the
  payload field \<^verbatim>\<open>b'hi'\<close>, the bytes literal, and so is not the line with the decoded
  string that the claim says.
\<close>

theorem utf8_payload_hi_logged_as_bytes_literal:
  "utf8_decode [0x68, 0x69] = Some (asc ''hi'')
   \<and> payload msg_hi = Bytes [0x68, 0x69]
   \<and> fst (on_message_with_log example_now example_now msg_hi ready_world) = None
   \<and> console (snd (on_message_with_log example_now example_now msg_hi ready_world)) =
       console_block (asc ''2024-03-09 07:05:00'') (asc ''a/b'') (asc ''1'') (asc ''False'')
         (asc ''hi'')
   \<and> disk (snd (on_message_with_log example_now example_now msg_hi ready_world)) =
       asc ''old''
       @ log_pattern (asc ''2024-03-09 07:05:00'') (asc ''a/b'') (asc ''1'') (asc ''False'')
           ([98, 39] @ asc ''hi'' @ [39])
       @ [LF]
   \<and> disk (snd (on_message_with_log example_now example_now msg_hi ready_world)) \<noteq>
       asc ''old''
       @ log_pattern (asc ''2024-03-09 07:05:00'') (asc ''a/b'') (asc ''1'') (asc ''False'')
           (asc ''hi'')
       @ [LF]"
  by (simp add: decode_hi callback_msg_hi log_pattern_payload_inj)
    (simp add: msg_hi_def asc_def)

text \<open>
  Claim C2, at the payload of the single octet FF. The octet is not UTF-8. The callback
  returns normally; the console block it prints has the payload line
  \<^verbatim>\<open>Payload: [Binary data: 1 bytes]\<close>, as the claim says; the line it appends to the log
  file ends in the payload field \<^verbatim>\<open>b'\xff'\<close>, the bytes literal with the octet escaped,
  and so is not the line with the placeholder that the claim says.
\<close>

theorem binary_payload_ff_logged_as_bytes_literal:
  "utf8_decode [0xFF] = None
   \<and> payload msg_ff = Bytes [0xFF]
   \<and> fst (on_message_with_log example_now example_now msg_ff ready_world) = None
   \<and> console (snd (on_message_with_log example_now example_now msg_ff ready_world)) =
       console_block (asc ''2024-03-09 07:05:00'') (asc ''a/b'') (asc ''0'') (asc ''True'')
         (asc ''[Binary data: 1 bytes]'')
   \<and> disk (snd (on_message_with_log example_now example_now msg_ff ready_world)) =
       asc ''old''
       @ log_pattern (asc ''2024-03-09 07:05:00'') (asc ''a/b'') (asc ''0'') (asc ''True'')
           ([98, 39, 92] @ asc ''xff'' @ [39])
       @ [LF]
   \<and> disk (snd (on_message_with_log example_now example_now msg_ff ready_world)) \<noteq>
       asc ''old''
       @ log_pattern (asc ''2024-03-09 07:05:00'') (asc ''a/b'') (asc ''0'') (asc ''True'')
           (asc ''[Binary data: 1 bytes]'')
       @ [LF]"
  by (simp add: decode_ff callback_msg_ff log_pattern_payload_inj)
    (simp add: msg_ff_def asc_def)

section \<open>One console block and one log entry per message\<close>









section \<open>The format of a log line\<close>

lemma str_int_qos: "q \<in> {0, 1, 2} \<Longrightarrow> str_int q = [48 + nat q]"
  by (auto simp: str_int_def str_nat_1)

text \<open>
  What \<^verbatim>\<open>log_to_file\<close> writes in general, for a topic that decodes: the bracketed
  timestamp of the shape \<^verbatim>\<open>YYYY-MM-DD HH:MM:SS\<close>, the topic, the QoS as its one decimal
  digit, the retained flag as \<^verbatim>\<open>True\<close> or \<^verbatim>\<open>False\<close>, and the payload as Python formats
  the object, which for a byte payload is its bytes literal and never the octets
  themselves.
\<close>

lemma log_line_shape:
  assumes "log_ready w" and "clock_reading now" and "qos msg \<in> {0, 1, 2}"
    and "topic msg = Inr t"
  shows "\<exists>w'. log_to_file now msg w = (None, w')
           \<and> disk w' = disk w
               @ log_pattern (strftime now) t [48 + nat (qos msg)]
                   (if retain msg then asc ''True'' else asc ''False'')
                   (case payload msg of Bytes bs \<Rightarrow> bytes_repr bs | Str s \<Rightarrow> s)
               @ [LF]
           \<and> is_timestamp (strftime now)
           \<and> calls w' = calls w @ [Write (log_entry now t msg), Flush]"
proof -
  from assms(1) have f: "log_file w = Some \<lparr>buffer = [], closed = False\<rparr>"
    by (simp add: log_ready_def)
  have "log_to_file now msg w =
          (None, w\<lparr>disk := disk w @ buffer \<lparr>buffer = [], closed = False\<rparr> @ log_entry now t msg,
                   log_file := Some (\<lparr>buffer = [], closed = False\<rparr>\<lparr>buffer := []\<rparr>),
                   calls := calls w @ [Write (log_entry now t msg), Flush]\<rparr>)"
    using assms(4) f by (rule log_to_file_open) simp
  moreover have "log_entry now t msg =
      log_pattern (strftime now) t [48 + nat (qos msg)]
        (if retain msg then asc ''True'' else asc ''False'')
        (case payload msg of Bytes bs \<Rightarrow> bytes_repr bs | Str s \<Rightarrow> s) @ [LF]"
    using str_int_qos [OF assms(3)]
    by (simp add: log_entry_pattern str_bool_def format_payload_def)
  ultimately show ?thesis
    using strftime_shape [OF assms(2)] by simp
qed

lemma bytes_repr_not_octets: "bytes_repr bs \<noteq> map unat bs"
  using bytes_repr_longer [of bs] by (auto dest: arg_cong [where f = length])

text \<open>
  Claim C4, at the message with topic \<^verbatim>\<open>a/b\<close>, QoS 1, not retained and payload \<^verbatim>\<open>hi\<close>,
  logged at 2024-03-09 07:05:00. The one line written has the timestamp, topic, QoS and
  retained fields of the pattern, but its payload field is \<^verbatim>\<open>b'hi'\<close>, five characters,
  where the raw payload is the two octets \<^verbatim>\<open>hi\<close>: the line is not the line of the
  pattern with the raw payload.
\<close>

theorem log_line_payload_field_is_bytes_literal:
  "fst (log_to_file example_now msg_hi ready_world) = None
   \<and> calls (snd (log_to_file example_now msg_hi ready_world)) =
       calls ready_world
       @ [Write (asc ''[2024-03-09 07:05:00] Topic: a/b, QoS: 1, Retained: False, Payload: b''
                 @ [39] @ asc ''hi'' @ [39, LF]), Flush]
   \<and> is_timestamp (asc ''2024-03-09 07:05:00'')
   \<and> payload msg_hi = Bytes [0x68, 0x69]
   \<and> asc ''[2024-03-09 07:05:00] Topic: a/b, QoS: 1, Retained: False, Payload: b''
         @ [39] @ asc ''hi'' @ [39, LF]
       \<noteq> asc ''[2024-03-09 07:05:00] Topic: a/b, QoS: 1, Retained: False, Payload: ''
           @ map unat [0x68, 0x69 :: byte] @ [LF]"
proof -
  have f: "log_file ready_world = Some \<lparr>buffer = [], closed = False\<rparr>"
    by (simp add: ready_world_def)
  have l: "log_to_file example_now msg_hi ready_world =
          (None, ready_world\<lparr>disk := disk ready_world
                     @ buffer \<lparr>buffer = [], closed = False\<rparr>
                     @ log_entry example_now (asc ''a/b'') msg_hi,
                   log_file := Some (\<lparr>buffer = [], closed = False\<rparr>\<lparr>buffer := []\<rparr>),
                   calls := calls ready_world
                     @ [Write (log_entry example_now (asc ''a/b'') msg_hi), Flush]\<rparr>)"
    using topic_msg_hi f by (rule log_to_file_open) simp
  have e: "log_entry example_now (asc ''a/b'') msg_hi =
      asc ''[2024-03-09 07:05:00] Topic: a/b, QoS: 1, Retained: False, Payload: b''
        @ [39] @ asc ''hi'' @ [39, LF]"
    by (simp add: log_entry_def strftime_example str_bool_def format_payload_def
        bytes_repr_hi msg_hi_def str_int_small) (simp add: asc_def)
  have t: "is_timestamp (asc ''2024-03-09 07:05:00'')"
    using strftime_shape [OF example_now_reading] by (simp add: strftime_example)
  show ?thesis
    by (simp add: l e t) (simp add: msg_hi_def asc_def)
qed

section \<open>A refused connection\<close>

text \<open>
  Claim C8. For every return code that is not zero, \<^verbatim>\<open>on_connect\<close> prints the one line
  \<^verbatim>\<open>Failed to connect, return code:\<close> followed by the return code as Python formats it,
  and does nothing else: the history of calls is unchanged (no subscribe, no connect),
  and so are the log file and its file object.
\<close>

theorem failed_connect_only_reports:
  assumes "\<not> rc_is_zero rc"
  shows "console (on_connect rc w)
           = console w @ ballot_x # asc '' Failed to connect, return code: '' @ rc_str rc @ [LF]
         \<and> calls (on_connect rc w) = calls w
         \<and> disk (on_connect rc w) = disk w
         \<and> log_file (on_connect rc w) = log_file w"
  using assms by (simp add: on_connect_def)

theorem failed_connect_only_reports_witness:
  "\<not> rc_is_zero (IntCode 5)
   \<and> console (on_connect (IntCode 5) ready_world)
       = console ready_world @ ballot_x # asc '' Failed to connect, return code: ''
           @ asc ''5'' @ [LF]
   \<and> calls (on_connect (IntCode 5) ready_world) = calls ready_world"
proof -
  have z: "\<not> rc_is_zero (IntCode 5)" by simp
  have s: "rc_str (IntCode 5) = asc ''5''"
    by (simp add: str_int_def str_nat_1 asc_def)
  show ?thesis
    using z s failed_connect_only_reports [OF z, of ready_world] by simp
qed

section \<open>Flushing\<close>

text \<open>
  Claim C9. With the log file open and its buffer empty, the callback of a message whose
  topic can be read returns normally after one write and one flush, in this order: the
  entry is then in the file and the buffer is empty again. The callback of a message
  whose topic cannot be read raises before any write and leaves file and buffer as they
  were. Hence after any number \<open>n\<close> of the events of a network loop, however the loop
  ends, the buffer is empty and the file holds the entries of all messages logged so
  far.
\<close>

theorem flushed_after_every_message:
  assumes "log_ready w"
  shows "(case topic msg of
            Inr t \<Rightarrow>
              \<exists>w'. on_message_with_log now1 now2 msg w = (None, w')
                \<and> calls w' = calls w @ [Write (log_entry now2 t msg), Flush]
                \<and> disk w' = disk w @ log_entry now2 t msg
                \<and> log_file w' = Some \<lparr>buffer = [], closed = False\<rparr>
          | Inl x \<Rightarrow>
              \<exists>w'. on_message_with_log now1 now2 msg w = (Some x, w')
                \<and> calls w' = calls w \<and> disk w' = disk w
                \<and> log_file w' = Some \<lparr>buffer = [], closed = False\<rparr>)
         \<and> log_file (snd (deliver (take n evs) fin w))
              = Some \<lparr>buffer = [], closed = False\<rparr>
         \<and> disk (snd (deliver (take n evs) fin w))
              = disk w @ concat (map event_entry (handled (take n evs)))"
proof -
  from deliver_ready [OF assms, of "take n evs" fin]
  have "log_ready (snd (deliver (take n evs) fin w))
        \<and> disk (snd (deliver (take n evs) fin w))
            = disk w @ concat (map event_entry (handled (take n evs)))"
    by auto
  moreover have "case topic msg of
            Inr t \<Rightarrow>
              \<exists>w'. on_message_with_log now1 now2 msg w = (None, w')
                \<and> calls w' = calls w @ [Write (log_entry now2 t msg), Flush]
                \<and> disk w' = disk w @ log_entry now2 t msg
                \<and> log_file w' = Some \<lparr>buffer = [], closed = False\<rparr>
          | Inl x \<Rightarrow>
              \<exists>w'. on_message_with_log now1 now2 msg w = (Some x, w')
                \<and> calls w' = calls w \<and> disk w' = disk w
                \<and> log_file w' = Some \<lparr>buffer = [], closed = False\<rparr>"
  proof (cases "topic msg")
    case (Inl x)
    with assms show ?thesis by (simp add: callback_fault log_ready_def)
  next
    case (Inr t)
    with assms show ?thesis by (simp add: callback_ready [OF Inr assms])
  qed
  ultimately show ?thesis
    by (simp add: log_ready_def)
qed

lemma handled_example: "handled (take 2 example_events) = take 2 example_events"
  by (simp add: handled_def example_events_def topic_msg_hi)

theorem flushed_after_every_message_witness:
  "log_ready ready_world
   \<and> (\<exists>w'. on_message_with_log example_now example_now msg_hi ready_world = (None, w')
         \<and> calls w' = calls ready_world
             @ [Write (log_entry example_now (asc ''a/b'') msg_hi), Flush]
         \<and> disk w' = disk ready_world @ log_entry example_now (asc ''a/b'') msg_hi
         \<and> log_file w' = Some \<lparr>buffer = [], closed = False\<rparr>)
   \<and> log_file (snd (deliver (take 2 example_events) Returns ready_world))
        = Some \<lparr>buffer = [], closed = False\<rparr>
   \<and> disk (snd (deliver (take 2 example_events) Returns ready_world))
        = disk ready_world @ concat (map event_entry (take 2 example_events))"
  using ready_world_ready
    flushed_after_every_message [OF ready_world_ready, where msg = msg_hi
      and ?now1.0 = example_now and ?now2.0 = example_now and n = 2
      and evs = example_events and fin = Returns]
  by (simp add: topic_msg_hi handled_example)

section \<open>The log file across a run\<close>

lemma written_append: "written (cs @ ds) = written cs @ written ds"
  by (induction cs rule: written.induct) simp_all

lemma open_modes_append: "open_modes (cs @ ds) = open_modes cs @ open_modes ds"
  by (induction cs rule: open_modes.induct) simp_all

lemma written_event_calls: "written (concat (map event_calls evs)) = concat (map event_entry evs)"
proof (induction evs)
  case Nil
  show ?case by simp
next
  case (Cons ev evs)
  then show ?case by (cases ev) (simp_all add: written_append split: sum.splits)
qed

lemma open_modes_event_calls: "open_modes (concat (map event_calls evs)) = []"
proof (induction evs)
  case Nil
  show ?case by simp
next
  case (Cons ev evs)
  then show ?case by (cases ev) (simp_all add: open_modes_append split: sum.splits)
qed

lemma event_calls_no_close: "Close \<notin> set (concat (map event_calls evs))"
proof (induction evs)
  case Nil
  show ?case by simp
next
  case (Cons ev evs)
  then show ?case by (cases ev) (simp_all split: sum.splits)
qed

lemma event_calls_no_disconnect: "Disconnect \<notin> set (concat (map event_calls evs))"
proof (induction evs)
  case Nil
  show ?case by simp
next
  case (Cons ev evs)
  then show ?case by (cases ev) (simp_all split: sum.splits)
qed

lemma install_calls_effect:
  "written (install_calls m) = []" "open_modes (install_calls m) = []"
  "Close \<notin> set (install_calls m)" "Disconnect \<notin> set (install_calls m)"
  by (cases m; simp add: install_calls_def)+

lemma written_parts:
  "written (install_calls m) = []"
  "written (setup_calls a e) = []"
  "written (try_calls a e) = concat (map event_entry (delivered e))"
  "written (handler_calls e) = []"
proof -
  show "written (install_calls m) = []"
    by (rule install_calls_effect)
  show "written (setup_calls a e) = []"
    by (simp add: setup_calls_def install_calls_effect written_append)
  show "written (try_calls a e) = concat (map event_entry (delivered e))"
    by (cases "connect_raises e")
      (simp_all add: try_calls_def delivered_def written_event_calls)
  show "written (handler_calls e) = []"
    by (cases e rule: outcome_cases) (simp_all add: handler_calls_def)
qed

lemma open_modes_parts:
  "open_modes (install_calls m) = []"
  "open_modes (setup_calls a e) = [Append]"
  "open_modes (try_calls a e) = []"
  "open_modes (handler_calls e) = []"
proof -
  show "open_modes (install_calls m) = []"
    by (rule install_calls_effect)
  show "open_modes (setup_calls a e) = [Append]"
    by (simp add: setup_calls_def install_calls_effect open_modes_append)
  show "open_modes (try_calls a e) = []"
    by (simp add: try_calls_def open_modes_event_calls)
  show "open_modes (handler_calls e) = []"
    by (cases e rule: outcome_cases) (simp_all add: handler_calls_def)
qed

lemma written_run_calls:
  "written (run_calls a e) =
     (if reaches_try a e then concat (map event_entry (delivered e)) else [])"
  by (auto simp: run_calls_def reaches_try_def written_append written_parts)

lemma open_modes_run_calls:
  "open_modes (run_calls a e) = (if reaches_open e then [Append] else [])"
  by (auto simp: run_calls_def open_modes_append open_modes_parts)

lemma calm_fields:
  "module calm = Importable" "import_raises calm = None" "open_raises calm p = None"
  "client_raises calm = None" "connect_raises calm = None" "events calm = example_events"
  "ending calm = Returns" "disconnect_raises calm = None" "close_raises calm = None"
  by (simp_all add: calm_def)

lemma example_events_faultless: "handled example_events = example_events"
  by (simp add: handled_def example_events_def topic_msg_hi topic_msg_ff)

lemma loop_outcome_example:
  "loop_outcome example_events fin = (case fin of Returns \<Rightarrow> None | Raises x \<Rightarrow> Some x)"
  by (cases fin) (simp_all add: example_events_def topic_msg_hi topic_msg_ff)

lemma env_interrupt_outcome:
  "reaches_try a env_interrupt" "outcome env_interrupt = Some KeyboardInterrupt"
  "disconnect_raises env_interrupt = None" "close_raises env_interrupt = None"
  "delivered env_interrupt = example_events"
  by (simp_all add: env_interrupt_def reaches_try_def reaches_open_def installed_def
      outcome_def delivered_def calm_fields loop_outcome_example example_events_faultless)

lemma env_error_outcome:
  "reaches_try a env_error"
  "outcome env_error = Some (Exception (asc ''Connection lost''))"
  "close_raises env_error = None"
  by (simp_all add: env_error_def reaches_try_def reaches_open_def installed_def
      outcome_def calm_fields loop_outcome_example)

lemma env_pip_fails_module:
  "module env_pip_fails = PipFails" "\<not> reaches_open env_pip_fails"
  "\<not> reaches_try a env_pip_fails" "\<not> installed (module env_pip_fails)"
  by (simp_all add: env_pip_fails_def reaches_try_def reaches_open_def installed_def)

text \<open>
  Claim C5, as the code has it. In every run the log file is opened in append mode and
  in no other, and at most once: exactly once in a run that gets as far as the \<^verbatim>\<open>open\<close>
  of line 70, and not at all in a run that ends beforehand, as the one does in which
  installing the client library fails. After every run the file holds the prior
  content followed by exactly the text of the writes made during the run, in order,
  which are the entries of the messages logged.
\<close>

theorem log_opened_once_for_append:
  "open_modes (calls (snd (main a e prior)))
     = (if reaches_open e then [Append] else [])
   \<and> disk (snd (main a e prior)) = prior @ written (calls (snd (main a e prior)))
   \<and> written (calls (snd (main a e prior)))
     = (if reaches_try a e then concat (map event_entry (delivered e)) else [])"
  by (simp add: main_calls main_disk written_run_calls open_modes_run_calls)

theorem log_opened_once_for_append_witness:
  "open_modes (calls (snd (main example_args env_interrupt (asc ''old'')))) = [Append]
   \<and> disk (snd (main example_args env_interrupt (asc ''old'')))
     = asc ''old'' @ log_entry example_now (asc ''a/b'') msg_hi
       @ log_entry example_now (asc ''a/b'') msg_ff
   \<and> open_modes (calls (snd (main example_args env_pip_fails (asc ''old'')))) = []
   \<and> disk (snd (main example_args env_pip_fails (asc ''old''))) = asc ''old''"
proof -
  have o: "reaches_open env_interrupt"
    using env_interrupt_outcome(1) [of example_args] by (simp add: reaches_try_def)
  show ?thesis
    using log_opened_once_for_append [of example_args env_interrupt "asc ''old''"]
      log_opened_once_for_append [of example_args env_pip_fails "asc ''old''"]
    by (simp add: o env_interrupt_outcome env_pip_fails_module example_events_def
        topic_msg_hi topic_msg_ff)
qed

text \<open>
  Claim C5 as stated fails in one kind of run: when installing the client library
  fails, the program exits before it reaches the open, so the log file is opened not
  once but never (and keeps its prior content).
\<close>

theorem failed_install_never_opens_log_counterexample:
  "module env_pip_fails = PipFails
   \<and> length (open_modes (calls (snd (main example_args env_pip_fails (asc ''old''))))) \<noteq> 1
   \<and> disk (snd (main example_args env_pip_fails (asc ''old''))) = asc ''old''"
  by (simp add: env_pip_fails_module main_not_installed [OF env_pip_fails_module(4)]
      install_calls_effect)

section \<open>Exit codes and shutdown\<close>

lemma main_returns:
  assumes "reaches_try a e" and "outcome e = None"
  shows "fst (main a e prior) = ExitCode 0"
  using main_run [OF assms(1), of prior] assms(2) by auto

lemma main_interrupt:
  assumes "reaches_try a e" and "outcome e = Some KeyboardInterrupt"
  shows "fst (main a e prior) =
           (case disconnect_raises e of
              Some x \<Rightarrow> Traceback x
            | None \<Rightarrow> (case close_raises e of Some x \<Rightarrow> Traceback x | None \<Rightarrow> ExitCode 0))"
    and "disconnect_raises e = None \<Longrightarrow>
           log_file (snd (main a e prior)) = Some \<lparr>buffer = [], closed = True\<rparr>"
proof -
  from main_run [OF assms(1), of prior] assms(2) obtain v where
    v: "log_ready v" "main a e prior = on_interrupt e v"
    by auto
  show "fst (main a e prior) =
           (case disconnect_raises e of
              Some x \<Rightarrow> Traceback x
            | None \<Rightarrow> (case close_raises e of Some x \<Rightarrow> Traceback x | None \<Rightarrow> ExitCode 0))"
    by (simp add: v(2) on_interrupt_ready(1) [OF v(1)])
  show "disconnect_raises e = None \<Longrightarrow>
           log_file (snd (main a e prior)) = Some \<lparr>buffer = [], closed = True\<rparr>"
    by (simp add: v(2) on_interrupt_ready(4) [OF v(1)])
qed

lemma main_error:
  assumes "reaches_try a e" and "outcome e = Some (Exception m)"
  shows "fst (main a e prior) =
           (case close_raises e of Some x \<Rightarrow> Traceback x | None \<Rightarrow> ExitCode 1)"
    and "log_file (snd (main a e prior)) = Some \<lparr>buffer = [], closed = True\<rparr>"
    and "\<exists>pre. console (snd (main a e prior)) = pre @ asc ''Error: '' @ m @ [LF]"
proof -
  from main_run [OF assms(1), of prior] assms(2) obtain v where
    v: "log_ready v" "main a e prior = on_exception m e v"
    by auto
  show "fst (main a e prior) =
           (case close_raises e of Some x \<Rightarrow> Traceback x | None \<Rightarrow> ExitCode 1)"
    by (simp add: v(2) on_exception_ready(1) [OF v(1)])
  show "log_file (snd (main a e prior)) = Some \<lparr>buffer = [], closed = True\<rparr>"
    by (simp add: v(2) on_exception_ready(4) [OF v(1)])
  show "\<exists>pre. console (snd (main a e prior)) = pre @ asc ''Error: '' @ m @ [LF]"
    by (simp add: v(2) on_exception_ready(5) [OF v(1)])
qed

lemma exit_code_range: "fst (main a e prior) = ExitCode n \<Longrightarrow> n = 0 \<or> n = 1"
proof (cases rule: run_cases [where e = e and a = a])
  case a
  assume "fst (main a e prior) = ExitCode n"
  with main_not_installed(1) [OF a, of a prior] show ?thesis
    by (cases "module e") simp_all
next
  case (b x)
  assume "fst (main a e prior) = ExitCode n"
  with main_import_raises(1) [OF b, of a prior] show ?thesis by simp
next
  case (c x)
  assume "fst (main a e prior) = ExitCode n"
  with main_open_raises(1) [OF c, of prior] show ?thesis by simp
next
  case (d x)
  assume "fst (main a e prior) = ExitCode n"
  with main_client_raises(1) [OF d, of prior] show ?thesis by simp
next
  case t
  assume n: "fst (main a e prior) = ExitCode n"
  show ?thesis
  proof (cases e rule: outcome_cases)
    case 1
    with main_returns [OF t 1, of prior] n show ?thesis by simp
  next
    case 2
    with main_interrupt(1) [OF t 2, of prior] n show ?thesis
      by (simp split: option.splits)
  next
    case (3 m)
    with main_error(1) [OF t 3, of prior] n show ?thesis
      by (simp split: option.splits)
  qed
qed

text \<open>
  Claim C6. The exit code is 1 when installing the missing client library fails. In a
  run that reaches the \<^verbatim>\<open>try\<close> statement it is 0 when the interrupt ends that statement
  and the shutdown of the handler goes through, 1 when another exception reaches the
  handler of \<^verbatim>\<open>main\<close> and the close goes through, and 0 should the network loop return.
  Whenever the process ends with an exit code at all, the code is 0 or 1.
\<close>

theorem exit_codes:
  "(module e = PipFails \<longrightarrow> fst (main a e prior) = ExitCode 1)
   \<and> (reaches_try a e \<and> outcome e = Some KeyboardInterrupt
        \<and> disconnect_raises e = None \<and> close_raises e = None
        \<longrightarrow> fst (main a e prior) = ExitCode 0)
   \<and> (reaches_try a e \<and> outcome e = Some (Exception m) \<and> close_raises e = None
        \<longrightarrow> fst (main a e prior) = ExitCode 1)
   \<and> (reaches_try a e \<and> outcome e = None \<longrightarrow> fst (main a e prior) = ExitCode 0)
   \<and> (\<forall>n. fst (main a e prior) = ExitCode n \<longrightarrow> n \<in> {0, 1})"
proof -
  have "module e = PipFails \<longrightarrow> fst (main a e prior) = ExitCode 1"
    using main_not_installed(1) [of e a prior] by (simp add: installed_def)
  moreover have "reaches_try a e \<and> outcome e = Some KeyboardInterrupt
        \<and> disconnect_raises e = None \<and> close_raises e = None
        \<longrightarrow> fst (main a e prior) = ExitCode 0"
    using main_interrupt(1) [of a e prior] by simp
  moreover have "reaches_try a e \<and> outcome e = Some (Exception m) \<and> close_raises e = None
        \<longrightarrow> fst (main a e prior) = ExitCode 1"
    using main_error(1) [of a e m prior] by simp
  moreover have "reaches_try a e \<and> outcome e = None \<longrightarrow> fst (main a e prior) = ExitCode 0"
    using main_returns [of a e prior] by simp
  moreover have "\<forall>n. fst (main a e prior) = ExitCode n \<longrightarrow> n \<in> {0, 1}"
    using exit_code_range [of a e prior] by auto
  ultimately show ?thesis by blast
qed

theorem exit_codes_witness:
  "fst (main example_args env_pip_fails (asc ''old'')) = ExitCode 1
   \<and> fst (main example_args env_interrupt (asc ''old'')) = ExitCode 0
   \<and> fst (main example_args env_error (asc ''old'')) = ExitCode 1"
  using exit_codes [where e = env_pip_fails and a = example_args and prior = "asc ''old''"]
    exit_codes [where e = env_interrupt and a = example_args and prior = "asc ''old''"]
    exit_codes [where e = env_error and a = example_args and prior = "asc ''old''"
      and m = "asc ''Connection lost''"]
  by (simp add: env_pip_fails_module env_interrupt_outcome env_error_outcome)

lemma no_close_before_handler: "Close \<notin> set (setup_calls a e @ try_calls a e)"
  using event_calls_no_close [of "handled (events e)"]
  by (simp add: setup_calls_def install_calls_effect try_calls_def)

lemma no_disconnect_before_handler: "Disconnect \<notin> set (setup_calls a e @ try_calls a e)"
  using event_calls_no_disconnect [of "handled (events e)"]
  by (simp add: setup_calls_def install_calls_effect try_calls_def)

lemma after_close_last:
  assumes "Close \<notin> set cs"
  shows "after_close (cs @ [Disconnect, Close]) = []" and "after_close (cs @ [Close]) = []"
proof -
  have "dropWhile (\<lambda>c. c \<noteq> Close) (cs @ ds) = dropWhile (\<lambda>c. c \<noteq> Close) ds" for ds
    using assms by (intro dropWhile_append2) auto
  then show "after_close (cs @ [Disconnect, Close]) = []"
    and "after_close (cs @ [Close]) = []"
    by (simp_all add: after_close_def)
qed

text \<open>
  Claim C7, as the code has it. When the interrupt is raised inside the \<^verbatim>\<open>try\<close>
  statement, that is while the program connects or runs the network loop, and the
  disconnect and the close go through, \<^verbatim>\<open>main\<close> ends with exit code 0 after
  disconnecting the client and then closing the log file: the history of calls ends
  with the disconnect followed by the close, it holds exactly one close, no call at all
  (so no write) comes after it, and the file is left closed with everything written
  during the run on disk.
\<close>

theorem interrupt_shutdown:
  assumes "reaches_try a e" and "outcome e = Some KeyboardInterrupt"
    and "disconnect_raises e = None" and "close_raises e = None"
  shows "\<exists>w'. main a e prior = (ExitCode 0, w')
           \<and> (\<exists>pre. calls w' = pre @ [Disconnect, Close])
           \<and> count_list (calls w') Close = 1
           \<and> after_close (calls w') = []
           \<and> log_file w' = Some \<lparr>buffer = [], closed = True\<rparr>
           \<and> disk w' = prior @ written (calls w')"
proof -
  obtain p w' where m: "main a e prior = (p, w')"
    by (cases "main a e prior")
  from assms have q: "reaches_open e" "open_raises e (log a) = None" "client_raises e = None"
    by (simp_all add: reaches_try_def)
  have p: "p = ExitCode 0"
    using main_interrupt(1) [OF assms(1,2), of prior] m assms(3,4) by simp
  have f: "log_file w' = Some \<lparr>buffer = [], closed = True\<rparr>"
    using main_interrupt(2) [OF assms(1,2,3), of prior] m by simp
  have c: "calls w' = (setup_calls a e @ try_calls a e) @ [Disconnect, Close]"
    using main_calls [of a e prior] m q assms(2,3)
    by (simp add: run_calls_def handler_calls_def)
  have d: "disk w' = prior @ written (calls w')"
    using main_disk [of a e prior] main_calls [of a e prior] m
    by (simp add: written_run_calls)
  have "count_list (setup_calls a e @ try_calls a e) Close = 0"
    using no_close_before_handler [of a e] by (rule count_notin)
  then have "count_list (calls w') Close = 1"
    unfolding c by simp
  moreover have "after_close (calls w') = []"
    unfolding c by (rule after_close_last(1) [OF no_close_before_handler])
  moreover have "\<exists>pre. calls w' = pre @ [Disconnect, Close]"
    using c by blast
  moreover have "main a e prior = (ExitCode 0, w')"
    using m p by simp
  ultimately show ?thesis
    using f d by blast
qed

theorem interrupt_shutdown_witness:
  "reaches_try example_args env_interrupt \<and> outcome env_interrupt = Some KeyboardInterrupt
   \<and> disconnect_raises env_interrupt = None \<and> close_raises env_interrupt = None
   \<and> (\<exists>w'. main example_args env_interrupt (asc ''old'') = (ExitCode 0, w')
           \<and> (\<exists>pre. calls w' = pre @ [Disconnect, Close])
           \<and> count_list (calls w') Close = 1
           \<and> after_close (calls w') = []
           \<and> log_file w' = Some \<lparr>buffer = [], closed = True\<rparr>)"
  using env_interrupt_outcome(1) [of example_args] env_interrupt_outcome(2-4)
    interrupt_shutdown [OF env_interrupt_outcome(1-4), of example_args "asc ''old''"]
  by blast

text \<open>
  Claim C7 as stated fails for an interrupt that arrives before the \<^verbatim>\<open>try\<close> statement:
  when it is raised while the installer runs (line 20), nothing catches it, so the
  process ends with its traceback and not with exit code 0, and neither a disconnect
  nor a close is ever called.
\<close>

theorem interrupt_during_install_counterexample:
  "module env_pip_interrupted = PipRaises KeyboardInterrupt
   \<and> fst (main example_args env_pip_interrupted (asc ''old'')) = Traceback KeyboardInterrupt
   \<and> fst (main example_args env_pip_interrupted (asc ''old'')) \<noteq> ExitCode 0
   \<and> Disconnect \<notin> set (calls (snd (main example_args env_pip_interrupted (asc ''old''))))
   \<and> Close \<notin> set (calls (snd (main example_args env_pip_interrupted (asc ''old''))))"
proof -
  have m: "module env_pip_interrupted = PipRaises KeyboardInterrupt"
    by (simp add: env_pip_interrupted_def)
  then have i: "\<not> installed (module env_pip_interrupted)"
    by (simp add: installed_def)
  show ?thesis
    using main_not_installed [OF i, of example_args "asc ''old''"] m
    by (simp add: install_calls_effect)
qed

text \<open>
  Claim C10, as the code has it. When an exception other than the interrupt is raised
  inside the \<^verbatim>\<open>try\<close> statement (by the connect, by the network loop or by a callback)
  and the close goes through, \<^verbatim>\<open>main\<close> prints \<^verbatim>\<open>Error:\<close> with the message of the
  exception as its last line, closes the log file (the one close ends the history of
  calls) and exits with code 1; the history of calls of the whole run holds no
  disconnect.
\<close>

theorem error_exit_without_disconnect:
  assumes "reaches_try a e" and "outcome e = Some (Exception m)"
    and "close_raises e = None"
  shows "\<exists>w'. main a e prior = (ExitCode 1, w')
           \<and> (\<exists>pre. console w' = pre @ asc ''Error: '' @ m @ [LF])
           \<and> (\<exists>pre. calls w' = pre @ [Close])
           \<and> count_list (calls w') Close = 1
           \<and> log_file w' = Some \<lparr>buffer = [], closed = True\<rparr>
           \<and> Disconnect \<notin> set (calls w')"
proof -
  obtain p w' where r: "main a e prior = (p, w')"
    by (cases "main a e prior")
  from assms have q: "reaches_open e" "open_raises e (log a) = None" "client_raises e = None"
    by (simp_all add: reaches_try_def)
  have p: "p = ExitCode 1"
    using main_error(1) [OF assms(1,2), of prior] r assms(3) by simp
  have f: "log_file w' = Some \<lparr>buffer = [], closed = True\<rparr>"
    using main_error(2) [OF assms(1,2), of prior] r by simp
  have o: "\<exists>pre. console w' = pre @ asc ''Error: '' @ m @ [LF]"
    using main_error(3) [OF assms(1,2), of prior] r by simp
  have c: "calls w' = (setup_calls a e @ try_calls a e) @ [Close]"
    using main_calls [of a e prior] r q assms(2)
    by (simp add: run_calls_def handler_calls_def)
  have "count_list (setup_calls a e @ try_calls a e) Close = 0"
    using no_close_before_handler [of a e] by (rule count_notin)
  then have "count_list (calls w') Close = 1"
    unfolding c by simp
  moreover have "Disconnect \<notin> set (calls w')"
    using no_disconnect_before_handler [of a e] by (simp add: c)
  moreover have "\<exists>pre. calls w' = pre @ [Close]"
    using c by blast
  moreover have "main a e prior = (ExitCode 1, w')"
    using r p by simp
  ultimately show ?thesis
    using f o by blast
qed

lemma env_bad_topic_outcome:
  "reaches_try a env_bad_topic"
  "outcome env_bad_topic =
     Some (Exception ([39] @ asc ''utf-8'' @ [39] @ asc '' codec can'' @ [39]
                      @ asc ''t decode byte 0xff in position 0: invalid start byte''))"
  "close_raises env_bad_topic = None"
  "delivered env_bad_topic = []"
  by (simp_all add: env_bad_topic_def reaches_try_def reaches_open_def installed_def
      outcome_def delivered_def handled_def calm_fields topic_msg_bad_topic)

text \<open>
  Two runs: one in which the network loop raises, and one in which the callback raises
  because the topic of the first message is not UTF-8.
\<close>

theorem error_exit_without_disconnect_witness:
  "reaches_try example_args env_error
   \<and> outcome env_error = Some (Exception (asc ''Connection lost''))
   \<and> close_raises env_error = None
   \<and> (\<exists>w'. main example_args env_error (asc ''old'') = (ExitCode 1, w')
           \<and> (\<exists>pre. console w' = pre @ asc ''Error: '' @ asc ''Connection lost'' @ [LF])
           \<and> count_list (calls w') Close = 1
           \<and> log_file w' = Some \<lparr>buffer = [], closed = True\<rparr>
           \<and> Disconnect \<notin> set (calls w'))
   \<and> reaches_try example_args env_bad_topic
   \<and> close_raises env_bad_topic = None
   \<and> (\<exists>w'. main example_args env_bad_topic (asc ''old'') = (ExitCode 1, w')
           \<and> (\<exists>pre. console w' =
                 pre @ asc ''Error: '' @ [39] @ asc ''utf-8'' @ [39] @ asc '' codec can''
                 @ [39] @ asc ''t decode byte 0xff in position 0: invalid start byte''
                 @ [LF])
           \<and> count_list (calls w') Close = 1
           \<and> Disconnect \<notin> set (calls w'))"
proof -
  from error_exit_without_disconnect [OF env_error_outcome, of example_args "asc ''old''"]
  have "\<exists>w'. main example_args env_error (asc ''old'') = (ExitCode 1, w')
           \<and> (\<exists>pre. console w' = pre @ asc ''Error: '' @ asc ''Connection lost'' @ [LF])
           \<and> count_list (calls w') Close = 1
           \<and> log_file w' = Some \<lparr>buffer = [], closed = True\<rparr>
           \<and> Disconnect \<notin> set (calls w')"
    by blast
  moreover
  from error_exit_without_disconnect [OF env_bad_topic_outcome(1-3),
    of example_args "asc ''old''"]
  have "\<exists>w'. main example_args env_bad_topic (asc ''old'') = (ExitCode 1, w')
           \<and> (\<exists>pre. console w' =
                 pre @ asc ''Error: '' @ ([39] @ asc ''utf-8'' @ [39] @ asc '' codec can''
                 @ [39] @ asc ''t decode byte 0xff in position 0: invalid start byte'')
                 @ [LF])
           \<and> count_list (calls w') Close = 1
           \<and> Disconnect \<notin> set (calls w')"
    by blast
  ultimately show ?thesis
    using env_error_outcome(1) [of example_args] env_error_outcome(2-3)
      env_bad_topic_outcome(1) [of example_args] env_bad_topic_outcome(3)
    by simp
qed

text \<open>
  Claim C10 as stated fails for an exception raised before the \<^verbatim>\<open>try\<close> statement: when
  the directory of the log file does not exist, \<^verbatim>\<open>open\<close> (line 70) raises, nothing
  catches the exception, and the process ends with its traceback: the one line on the
  console is the one of the installation step, no \<^verbatim>\<open>Error:\<close> line is printed, and no
  close is called.
\<close>

theorem open_failure_not_handled_counterexample:
  "open_raises env_open_fails (log args_missing_dir) = Some (no_such_file missing_dir_log)
   \<and> fst (main args_missing_dir env_open_fails (asc ''old''))
       = Traceback (no_such_file missing_dir_log)
   \<and> console (snd (main args_missing_dir env_open_fails (asc ''old'')))
       = check_mark # asc '' paho-mqtt is already installed'' @ [LF]
   \<and> calls (snd (main args_missing_dir env_open_fails (asc ''old'')))
       = [Open missing_dir_log Append]
   \<and> Close \<notin> set (calls (snd (main args_missing_dir env_open_fails (asc ''old''))))"
  by (simp add: main_def install_paho_mqtt_def py_open_def env_open_fails_def
      args_missing_dir_def example_args_def calm_def Let_def)

end
